theory Spec2Isabelle
  imports Complex_Main "HOL-Library.AList" "HOL-Library.Multiset"
begin

section \<open>Values and data rows (types.ts)\<close>

text \<open>
  A JavaScript number is a finite value, one of the two infinities, or the number NaN.
  Finite values are taken as reals: rounding of the double representation is not modelled,
  except where a test of the code depends on it (the subtraction \<open>float_sub\<close> below).
\<close>

datatype jsnum = Fin real | PosInf | NegInf | NaN

text \<open>
  A value read from a data row: a number, a string, or \<open>undefined\<close> (what reading a
  missing key yields). The invalid marker is the string \<open>''NaN''\<close>.
\<close>

datatype val = Num jsnum | Str string | Undefined

text \<open>
  A data row is an object; its keys are kept in the order \<open>Object.keys\<close> lists them, so a
  row is an association list. The keys of a row are its own properties: a property that a
  row would only inherit, which the operator \<open>in\<close> also finds, is not modelled.
\<close>

type_synonym DataRow = "(string \<times> val) list"
type_synonym DataRows = "DataRow list"

definition has_key :: "string \<Rightarrow> DataRow \<Rightarrow> bool" where
  "has_key k row = (k \<in> fst ` set row)"

definition get :: "DataRow \<Rightarrow> string \<Rightarrow> val" where
  "get row k = (case map_of row k of None \<Rightarrow> Undefined | Some v \<Rightarrow> v)"

datatype ATTRIBUTE_TYPE = NOMINAL | NUMERICAL

datatype OPTIMIZATION_TYPE = OPT_MIN | OPT_MAX

datatype BRUSHING_DIRECTION = EXTEND | SHRINK

datatype statistics_t = MinMax jsnum jsnum | Categories "string list"

datatype obj_t = ObjString string | ObjType OPTIMIZATION_TYPE

text \<open>
  \<open>Dimension\<close> and \<open>Objective\<close>: an objective is a dimension whose \<open>obj\<close> property is
  present. Optional properties are options.
\<close>

record Dimension =
  name :: string
  unit :: "string option"
  attr_type :: ATTRIBUTE_TYPE
  color :: "string option"
  statistics :: statistics_t
  obj :: "obj_t option"

definition hasTypeObjective :: "Dimension \<Rightarrow> bool" where
  "hasTypeObjective d = (obj d \<noteq> None)"

text \<open>
  The errors the code throws: three messages of the sources, and the \<open>TypeError\<close> of the
  runtime when a property of \<open>undefined\<close> is read.
\<close>

datatype error =
    CouldNotDetermineType string
  | TypeChanged string
  | DimensionMismatch
  | NonNumericalObjective
  | TypeError

section \<open>Data preparation (module \<open>data\<close>)\<close>

text \<open>A \<open>DimensionPreview\<close> holds a name only; it is modelled by the name.\<close>

definition initColumnsFromRows :: "DataRows \<Rightarrow> string list" where
  "initColumnsFromRows rows = (case rows of [] \<Rightarrow> [] | r # _ \<Rightarrow> map fst r)"

definition has_id :: "DataRow \<Rightarrow> bool" where
  "has_id row = (has_key ''ID'' row \<or> has_key ''id'' row \<or> has_key ''Id'' row)"

text \<open>
  \<open>insertIDs\<close>: every row without an \<open>ID\<close>, \<open>id\<close> or \<open>Id\<close> key gets the property \<open>ID\<close>
  set to its index. Assigning a new property appends it to the object's keys. (The source
  writes into the caller's row objects; the model returns the updated rows.)
\<close>

definition insertIDs :: "DataRows \<Rightarrow> bool \<times> DataRows" where
  "insertIDs rows =
     (list_ex (\<lambda>row. \<not> has_id row) rows,
      map (\<lambda>(i, row). if \<not> has_id row then AList.update ''ID'' (Num (Fin (real i))) row else row)
          (enumerate 0 rows))"

definition is_number :: "val \<Rightarrow> bool" where
  "is_number v = (case v of Num _ \<Rightarrow> True | _ \<Rightarrow> False)"

definition is_string :: "val \<Rightarrow> bool" where
  "is_string v = (case v of Str _ \<Rightarrow> True | _ \<Rightarrow> False)"

definition numeric_or_marker :: "val \<Rightarrow> bool" where
  "numeric_or_marker v = (is_number v \<or> v = Str ''NaN'')"

text \<open>\<open>Number(val)\<close> on the values that pass the numerical test.\<close>

fun Number :: "val \<Rightarrow> jsnum" where
  "Number (Num n) = n"
| "Number _ = NaN"

definition isNaN :: "jsnum \<Rightarrow> bool" where
  "isNaN n = (n = NaN)"

text \<open>The order of JavaScript numbers, NaN apart.\<close>

fun js_less :: "jsnum \<Rightarrow> jsnum \<Rightarrow> bool" where
  "js_less (Fin a) (Fin b) = (a < b)"
| "js_less NegInf (Fin _) = True"
| "js_less NegInf PosInf = True"
| "js_less (Fin _) PosInf = True"
| "js_less _ _ = False"

text \<open>
  \<open>Math.min\<close> and \<open>Math.max\<close> of an argument list: \<open>Infinity\<close> and \<open>-Infinity\<close> for no
  argument, NaN as soon as an argument is NaN.
\<close>

definition min2 :: "jsnum \<Rightarrow> jsnum \<Rightarrow> jsnum" where
  "min2 m x = (if m = NaN \<or> x = NaN then NaN else if js_less x m then x else m)"

definition max2 :: "jsnum \<Rightarrow> jsnum \<Rightarrow> jsnum" where
  "max2 m x = (if m = NaN \<or> x = NaN then NaN else if js_less m x then x else m)"

definition Math_min :: "jsnum list \<Rightarrow> jsnum" where
  "Math_min xs = foldl min2 PosInf xs"

definition Math_max :: "jsnum list \<Rightarrow> jsnum" where
  "Math_max xs = foldl max2 NegInf xs"

text \<open>
  \<open>self.indexOf(value) === index\<close>: the first occurrence of every value is kept.
\<close>

fun unique_first :: "'a list \<Rightarrow> 'a list" where
  "unique_first [] = []"
| "unique_first (x # xs) = x # unique_first (filter (\<lambda>y. y \<noteq> x) xs)"

fun as_string :: "val \<Rightarrow> string" where
  "as_string (Str s) = s"
| "as_string _ = []"

definition attr_values :: "string \<Rightarrow> DataRows \<Rightarrow> val list" where
  "attr_values attr rows = map (\<lambda>row. get row attr) rows"

text \<open>The numbers of a column that are valid: neither the marker nor the number NaN.\<close>

definition valid_numbers :: "val list \<Rightarrow> jsnum list" where
  "valid_numbers vs = [n. Num n \<leftarrow> vs, n \<noteq> NaN]"

text \<open>The body of the loop of \<open>deriveColumnMetaData\<close>, for one column.\<close>

definition deriveColumn :: "string \<Rightarrow> DataRows \<Rightarrow> error + Dimension" where
  "deriveColumn attr rows =
     (let vs = attr_values attr rows in
      if list_all numeric_or_marker vs then
        (let num_attr_values = filter (\<lambda>n. \<not> isNaN n) (map Number vs) in
         Inr \<lparr>name = attr, unit = None, attr_type = NUMERICAL, color = None,
              statistics = MinMax (Math_min num_attr_values) (Math_max num_attr_values),
              obj = None\<rparr>)
      else if list_all is_string vs then
        Inr \<lparr>name = attr, unit = None, attr_type = NOMINAL, color = None,
             statistics = Categories (unique_first (map as_string vs)), obj = None\<rparr>
      else Inl (CouldNotDetermineType attr))"

fun deriveColumnMetaData :: "string list \<Rightarrow> DataRows \<Rightarrow> error + Dimension list" where
  "deriveColumnMetaData [] rows = Inr []"
| "deriveColumnMetaData (attr # columns) rows =
     (case deriveColumn attr rows of
        Inl e \<Rightarrow> Inl e
      | Inr d \<Rightarrow> (case deriveColumnMetaData columns rows of
                   Inl e \<Rightarrow> Inl e
                 | Inr ds \<Rightarrow> Inr (d # ds)))"

definition prepareData :: "DataRows \<Rightarrow> error + (Dimension list \<times> DataRows)" where
  "prepareData rows =
     (let columns = initColumnsFromRows rows;
          (idsGenerated, modifiedRows) = insertIDs rows;
          columns' = (if idsGenerated then ''ID'' # columns else columns)
      in case deriveColumnMetaData columns' modifiedRows of
           Inl e \<Rightarrow> Inl e
         | Inr cols \<Rightarrow> Inr (cols, modifiedRows))"

section \<open>Library functions\<close>

text \<open>
  The functions of d3 and Raphael that the sources call are parameters of the model: the
  mapping of an axis scale from a domain value to a pixel (\<open>undefined\<close> is \<open>None\<close>), the
  point scale that places the axes (total, as the non-null assertion of \<open>position\<close> takes
  it), the line generator, and the intersection of two path descriptions. So are the
  subtraction of two numbers, \<open>float_sub\<close> (the difference as double arithmetic rounds it,
  which the test of the brush's width compares; comparisons of numbers are exact), and
  \<open>getTranslation\<close>: the vertical translation the DOM reads back from a \<open>transform\<close>
  attribute that was written as \<open>translate(0, y)\<close>.
\<close>

record AxisScale =
  scale_kind :: ATTRIBUTE_TYPE
  scale_domain :: statistics_t
  scale_range :: "real \<times> real"

type_synonym Point = "real \<times> real"

record Lib =
  domainToRange :: "AxisScale \<Rightarrow> val \<Rightarrow> real option"
  xScale :: "string list \<Rightarrow> string \<Rightarrow> real"
  lineGenerator :: "Point list \<Rightarrow> string option"
  pathIntersection :: "string \<Rightarrow> string \<Rightarrow> Point list"
  float_sub :: "real \<Rightarrow> real \<Rightarrow> real"
  getTranslation :: "real \<Rightarrow> real"

section \<open>Axes (classes \<open>DefaultAxis\<close>, \<open>ParameterAxis\<close>, \<open>ObjectiveAxis\<close>)\<close>

text \<open>
  \<open>Number(x.toFixed(6))\<close>: the nearest multiple of \<open>10\<^sup>-\<^sup>6\<close>, a tie going away from zero;
  from \<open>10\<^sup>2\<^sup>1\<close> on \<open>toFixed\<close> prints the number itself.
\<close>

definition toFixed6 :: "real \<Rightarrow> real" where
  "toFixed6 x =
     (if \<bar>x\<bar> \<ge> 10 ^ 21 then x
      else if x < 0 then - (real_of_int \<lfloor>- x * 10 ^ 6 + 1 / 2\<rfloor> / 10 ^ 6)
      else real_of_int \<lfloor>x * 10 ^ 6 + 1 / 2\<rfloor> / 10 ^ 6)"

datatype axis_class = DefaultAxis | ParameterAxis | ObjectiveAxis

text \<open>
  The brush group of an axis: the selection d3 keeps on the group's node (what
  \<open>brushSelection\<close> returns: \<open>None\<close> or the pixel pair \<open>[y0, y1]\<close>), the \<open>y\<close> attributes of
  the two bound labels, and the \<open>y\<close> of the \<open>translate(0, y)\<close> written to the \<open>transform\<close>
  attribute of the custom handle, which \<open>initCanvas\<close> adds to the group of an objective axis
  (\<open>None\<close> while the attribute is not set). A group without a node is \<open>NoNode\<close>.
\<close>

record BrushNode =
  selection :: "(real \<times> real) option"
  upper_y :: "real option"
  lower_y :: "real option"
  handle_y :: "real option"

datatype BrushGroup = NoNode | Node BrushNode

text \<open>
  An axis. \<open>brushGroup\<close> is \<open>None\<close> until \<open>registerAxis\<close> assigns it. \<open>timerId\<close> is the
  handle of the pending throttle timer.
\<close>

record Axis =
  axis_class :: axis_class
  dimension :: Dimension
  scale :: AxisScale
  brushGroup :: "BrushGroup option"
  NANIndicatorEnabled :: bool
  timerId :: "nat option"

text \<open>The constructors. A new linear or point scale of d3 has the range \<open>[0, 1]\<close>.\<close>

definition new_DefaultAxis :: "axis_class \<Rightarrow> Dimension \<Rightarrow> Axis" where
  "new_DefaultAxis c d =
     \<lparr>axis_class = c, dimension = d,
      scale = \<lparr>scale_kind = attr_type d, scale_domain = statistics d, scale_range = (0, 1)\<rparr>,
      brushGroup = None, NANIndicatorEnabled = False, timerId = None\<rparr>"

definition new_ObjectiveAxis :: "Dimension \<Rightarrow> error + Axis" where
  "new_ObjectiveAxis d =
     (if attr_type d \<noteq> NUMERICAL then Inl NonNumericalObjective
      else Inr (new_DefaultAxis ObjectiveAxis d))"

definition setDimension :: "Dimension \<Rightarrow> Axis \<Rightarrow> Axis" where
  "setDimension d a = a\<lparr>dimension := d\<rparr>"

definition setScale :: "real \<times> real \<Rightarrow> statistics_t \<Rightarrow> Axis \<Rightarrow> Axis" where
  "setScale rng dmn a = a\<lparr>scale := (scale a)\<lparr>scale_range := rng, scale_domain := dmn\<rparr>\<rparr>"

definition setNANIndicatorEnabled :: "bool \<Rightarrow> Axis \<Rightarrow> Axis" where
  "setNANIndicatorEnabled enabled a = a\<lparr>NANIndicatorEnabled := enabled\<rparr>"

text \<open>
  \<open>brush.move(group, selection)\<close> of d3 stores the selection on every node of the group.
  (It then dispatches the brush events, whose handlers are modelled below.)
\<close>

definition brush_move :: "(real \<times> real) option \<Rightarrow> BrushGroup \<Rightarrow> BrushGroup" where
  "brush_move sel g = (case g of NoNode \<Rightarrow> NoNode | Node n \<Rightarrow> Node (n\<lparr>selection := sel\<rparr>))"

text \<open>
  \<open>clearBrush\<close>. \<open>DefaultAxis\<close> (and \<open>ParameterAxis\<close>, which inherits it) moves the brush to
  \<open>null\<close> if the brush group exists. \<open>ObjectiveAxis\<close> overrides it: the brush is moved to the
  full range \<open>[range[1], range[0]]\<close>, with no guard.
\<close>

definition clearBrush :: "Axis \<Rightarrow> error + Axis" where
  "clearBrush a =
     (case axis_class a of
        ObjectiveAxis \<Rightarrow>
          (case brushGroup a of
             None \<Rightarrow> Inl TypeError
           | Some g \<Rightarrow>
               (let rng = scale_range (scale a); fullRange = (snd rng, fst rng)
                in Inr (a\<lparr>brushGroup := Some (brush_move (Some fullRange) g)\<rparr>)))
      | _ \<Rightarrow>
          (case brushGroup a of
             None \<Rightarrow> Inr a
           | Some g \<Rightarrow> Inr (a\<lparr>brushGroup := Some (brush_move None g)\<rparr>)))"

text \<open>
  \<open>registerAxis\<close>: \<open>initCanvas\<close> appends the brush group with its two labels, \<open>render\<close>
  applies the brush to it. \<open>ObjectiveAxis.initCanvas\<close> applies the brush itself and ends
  with \<open>clearBrush\<close>.
\<close>

definition registerAxis :: "Axis \<Rightarrow> error + Axis" where
  "registerAxis a =
     (let a' = a\<lparr>brushGroup := Some (Node \<lparr>selection = None, upper_y = None, lower_y = None,
                                          handle_y = None\<rparr>)\<rparr>
      in if axis_class a = ObjectiveAxis then clearBrush a' else Inr a')"

text \<open>\<open>isBrushed\<close> of an axis, for the value of an item on that axis.\<close>

definition isBrushed :: "Lib \<Rightarrow> Axis \<Rightarrow> val \<Rightarrow> error + bool" where
  "isBrushed L a domainValue =
     (case brushGroup a of
        None \<Rightarrow> Inl TypeError
      | Some NoNode \<Rightarrow> Inr True
      | Some (Node n) \<Rightarrow>
          (case selection n of
             None \<Rightarrow> Inr True
           | Some brushRange \<Rightarrow>
               if domainValue = Str ''NaN'' then Inr False
               else
                 (let brushedRange = (snd brushRange, fst brushRange)
                  in case domainToRange L (scale a) domainValue of
                       Some rangeVal \<Rightarrow>
                         Inr (toFixed6 (fst brushedRange) \<ge> toFixed6 rangeVal \<and>
                              toFixed6 rangeVal \<ge> toFixed6 (snd brushedRange))
                     | None \<Rightarrow> Inr False)))"

subsection \<open>The listeners of the brush events\<close>

text \<open>
  \<open>Number(attr)\<close> of a label's \<open>y\<close> attribute: \<open>0\<close> when the attribute is absent (\<open>null\<close>).
  The result is a number, so the test \<open>=== null\<close> that follows in the source is false.
\<close>

definition Number_attr :: "real option \<Rightarrow> real" where
  "Number_attr y = (case y of None \<Rightarrow> 0 | Some v \<Rightarrow> v)"

definition number_is_null :: "real \<Rightarrow> bool" where
  "number_is_null x = False"

text \<open>
  The direction the listener of \<open>DefaultAxis\<close> computes, from the labels (the previous
  extent) and the new selection. \<open>upper\<close> is \<open>brushRange[0]\<close>, the smaller pixel; \<open>lower\<close> is
  \<open>brushRange[1]\<close>. The two widths are differences in double arithmetic.
\<close>

definition brush_direction ::
  "Lib \<Rightarrow> real option \<Rightarrow> real option \<Rightarrow> real \<times> real \<Rightarrow> BRUSHING_DIRECTION option" where
  "brush_direction L upper_attr lower_attr brushRange =
     (let currUpper = Number_attr upper_attr;
          currLower = Number_attr lower_attr;
          nextUpper = fst brushRange;
          nextLower = snd brushRange
      in if float_sub L currUpper currLower \<noteq> float_sub L nextUpper nextLower then
           (if number_is_null currUpper \<or> number_is_null currLower then Some SHRINK
            else if nextUpper > currUpper \<or> nextLower < currLower then Some SHRINK
            else Some EXTEND)
         else None)"

text \<open>
  The direction the listener of \<open>ObjectiveAxis\<close> computes, from the custom handle (the
  previous bound) and the new selection: EXTEND unless the bound on the side of the
  handle moved inward. The second component is the new bound, which the handle takes.
\<close>

definition objective_direction ::
  "Lib \<Rightarrow> obj_t option \<Rightarrow> real option \<Rightarrow> real \<times> real \<Rightarrow> BRUSHING_DIRECTION \<times> real" where
  "objective_direction L ob handle_attr brushRange =
     (let nextBound = (if ob = Some (ObjType OPT_MAX) then snd brushRange else fst brushRange);
          currBound = (case handle_attr of Some y \<Rightarrow> getTranslation L y | None \<Rightarrow> nextBound)
      in if (ob = Some (ObjType OPT_MIN) \<and> nextBound > currBound) \<or>
            (ob = Some (ObjType OPT_MAX) \<and> nextBound < currBound)
         then (SHRINK, nextBound) else (EXTEND, nextBound))"

text \<open>
  The listener of the \<open>brush\<close> event up to the throttled call: the direction, and the axis
  with its labels (or, for an objective axis, its custom handle) moved to the new
  selection. \<open>ObjectiveAxis\<close> overrides \<open>setBrushHandler\<close>: its listener writes no label and
  always gives a direction.
\<close>

definition on_brush :: "Lib \<Rightarrow> Axis \<Rightarrow> error + (BRUSHING_DIRECTION option \<times> Axis)" where
  "on_brush L a =
     (case brushGroup a of
        None \<Rightarrow> Inl TypeError
      | Some NoNode \<Rightarrow> Inr (if axis_class a = ObjectiveAxis then Some EXTEND else None, a)
      | Some (Node n) \<Rightarrow>
          (case selection n of
             None \<Rightarrow> Inr (if axis_class a = ObjectiveAxis then Some EXTEND else None, a)
           | Some brushRange \<Rightarrow>
               if axis_class a = ObjectiveAxis then
                 (case objective_direction L (obj (dimension a)) (handle_y n) brushRange of
                    (direction, nextBound) \<Rightarrow>
                      Inr (Some direction,
                           a\<lparr>brushGroup := Some (Node (n\<lparr>handle_y := Some nextBound\<rparr>))\<rparr>))
               else
                 Inr (brush_direction L (upper_y n) (lower_y n) brushRange,
                      a\<lparr>brushGroup :=
                          Some (Node (n\<lparr>upper_y := Some (fst brushRange),
                                        lower_y := Some (snd brushRange)\<rparr>))\<rparr>)))"

subsection \<open>Throttling\<close>

text \<open>
  The timers the axis has scheduled on the event loop: the handle \<open>setTimeout\<close> returned,
  the time (in milliseconds) the timer is due, and the direction its callback has captured.
  The loop also keeps the calls of the brush handler: the time, whether the call came from
  a timer of the throttle or directly from the \<open>end\<close> listener, the name of the dimension
  and the direction. Handles are truthy (counted from 1).
\<close>

record Timer =
  handle :: nat
  due :: nat
  captured :: "BRUSHING_DIRECTION option"

datatype call_kind = Throttled | Direct

record Loop =
  timers :: "Timer list"
  fresh :: nat
  calls :: "(nat \<times> call_kind \<times> string \<times> BRUSHING_DIRECTION option) list"

definition throttleFunction ::
  "nat \<Rightarrow> nat \<Rightarrow> BRUSHING_DIRECTION option \<Rightarrow> Axis \<times> Loop \<Rightarrow> Axis \<times> Loop" where
  "throttleFunction now delay direction st =
     (case st of (a, l) \<Rightarrow>
        if timerId a \<noteq> None then (a, l)
        else (a\<lparr>timerId := Some (fresh l)\<rparr>,
              l\<lparr>timers := timers l @ [\<lparr>handle = fresh l, due = now + delay, captured = direction\<rparr>],
                fresh := Suc (fresh l)\<rparr>))"

text \<open>
  The callback of a timer: the handler is called, then \<open>timerId\<close> is reset. The handler is
  the chart's, and it may throw: \<open>ok\<close> tells whether the call made at a time, with a name
  and a direction, returns. When it throws, the statement that resets \<open>timerId\<close> is not
  reached.
\<close>

type_synonym handler_outcome = "nat \<Rightarrow> string \<Rightarrow> BRUSHING_DIRECTION option \<Rightarrow> bool"

definition timer_callback :: "handler_outcome \<Rightarrow> nat \<Rightarrow> Timer \<Rightarrow> Axis \<times> Loop \<Rightarrow> Axis \<times> Loop" where
  "timer_callback ok now t st =
     (case st of (a, l) \<Rightarrow>
        (let l' = l\<lparr>calls := calls l @ [(now, Throttled, name (dimension a), captured t)]\<rparr>
         in if ok now (name (dimension a)) (captured t) then (a\<lparr>timerId := None\<rparr>, l')
            else (a, l')))"

text \<open>The event loop at time \<open>now\<close>: every timer that is due runs and is removed.\<close>

definition run_timers :: "handler_outcome \<Rightarrow> nat \<Rightarrow> Axis \<times> Loop \<Rightarrow> Axis \<times> Loop" where
  "run_timers ok now st =
     (case st of (a, l) \<Rightarrow>
        foldl (\<lambda>st' t. timer_callback ok now t st')
              (a, l\<lparr>timers := filter (\<lambda>t. \<not> due t \<le> now) (timers l)\<rparr>)
              (filter (\<lambda>t. due t \<le> now) (timers l)))"

text \<open>
  Before d3 dispatches an event of the brush, it has stored the selection of the gesture
  on the node.
\<close>

definition store_selection :: "(real \<times> real) option \<Rightarrow> Axis \<Rightarrow> Axis" where
  "store_selection sel a = a\<lparr>brushGroup := map_option (brush_move sel) (brushGroup a)\<rparr>"

text \<open>
  The listener of \<open>brush\<close>: the direction is computed and \<open>throttleFunction(brushHandler,
  300, direction)\<close> is called. The listener of \<open>end\<close>, which only \<open>DefaultAxis\<close> registers
  (\<open>ObjectiveAxis.setBrushHandler\<close> does not): when the brush has been removed, the handler
  is called at once with EXTEND, not through the throttle. A listener that throws leaves
  the throttle as it was.
\<close>

definition brush_listener :: "Lib \<Rightarrow> nat \<Rightarrow> Axis \<times> Loop \<Rightarrow> Axis \<times> Loop" where
  "brush_listener L now st =
     (case st of (a, l) \<Rightarrow>
        (case on_brush L a of
           Inl e \<Rightarrow> (a, l)
         | Inr (direction, a') \<Rightarrow> throttleFunction now 300 direction (a', l)))"

definition end_listener :: "nat \<Rightarrow> Axis \<times> Loop \<Rightarrow> Axis \<times> Loop" where
  "end_listener now st =
     (case st of (a, l) \<Rightarrow>
        if axis_class a = ObjectiveAxis then (a, l)
        else
          (case brushGroup a of
             Some (Node n) \<Rightarrow>
               if selection n = None
               then (a, l\<lparr>calls := calls l @ [(now, Direct, name (dimension a), Some EXTEND)]\<rparr>)
               else (a, l)
           | _ \<Rightarrow> (a, l)))"

text \<open>
  What happens to the throttle of one axis: d3 dispatches \<open>brush\<close> or \<open>end\<close> at some time,
  with the selection it has stored, or the event loop takes a turn.
\<close>

datatype event =
    BrushEvent nat "(real \<times> real) option"
  | EndEvent nat "(real \<times> real) option"
  | Tick nat

fun time_of :: "event \<Rightarrow> nat" where
  "time_of (BrushEvent t _) = t"
| "time_of (EndEvent t _) = t"
| "time_of (Tick t) = t"

fun step :: "Lib \<Rightarrow> handler_outcome \<Rightarrow> event \<Rightarrow> Axis \<times> Loop \<Rightarrow> Axis \<times> Loop" where
  "step L ok (BrushEvent t sel) st = brush_listener L t (store_selection sel (fst st), snd st)"
| "step L ok (EndEvent t sel) st = end_listener t (store_selection sel (fst st), snd st)"
| "step L ok (Tick t) st = run_timers ok t st"

definition run :: "Lib \<Rightarrow> handler_outcome \<Rightarrow> event list \<Rightarrow> Axis \<times> Loop \<Rightarrow> Axis \<times> Loop" where
  "run L ok evs st = foldl (\<lambda>st' e. step L ok e st') st evs"

text \<open>The times of the calls that came from the throttle.\<close>

definition throttled_times :: "Loop \<Rightarrow> nat list" where
  "throttled_times l = map fst (filter (\<lambda>c. fst (snd c) = Throttled) (calls l))"

text \<open>Successive times that are at least \<open>d\<close> apart.\<close>

fun spaced :: "nat \<Rightarrow> nat list \<Rightarrow> bool" where
  "spaced d [] = True"
| "spaced d [t] = True"
| "spaced d (t1 # t2 # ts) = (t1 + d \<le> t2 \<and> spaced d (t2 # ts))"

text \<open>
  The invariant of the throttle at a time \<open>T\<close>: the throttled calls so far are 300 ms apart
  and none is later than \<open>T\<close>; no timer is scheduled when \<open>timerId\<close> is unset; when it is
  set, the only timer there can be is the one it names, due 300 ms or more after the last
  throttled call.
\<close>

definition throttle_inv :: "nat \<Rightarrow> Axis \<times> Loop \<Rightarrow> bool" where
  "throttle_inv T st =
     (case st of (a, l) \<Rightarrow>
        spaced 300 (throttled_times l) \<and>
        (throttled_times l = [] \<or> last (throttled_times l) \<le> T) \<and>
        (case timerId a of
           None \<Rightarrow> timers l = []
         | Some h \<Rightarrow>
             (case timers l of
                [] \<Rightarrow> True
              | [tm] \<Rightarrow>
                  handle tm = h \<and>
                  (throttled_times l = [] \<or> last (throttled_times l) + 300 \<le> due tm)
              | _ \<Rightarrow> False)))"

section \<open>The line brush (function \<open>lineBrush\<close>)\<close>

text \<open>
  The closure variables of \<open>lineBrush\<close>, and of the document what the brush reads back: the
  attribute \<open>d\<close> and the display of its path, as \<open>render\<close> wrote them last. \<open>notified\<close> logs
  the calls of \<open>brushCallback\<close>, each with what \<open>getPath\<close> and the attribute \<open>d\<close> were at that
  moment.
\<close>

record LineBrush =
  started :: bool
  ended :: bool
  visible :: bool
  start_point :: Point
  end_point :: Point
  linePath_d :: "string option"
  linePath_display :: bool
  handles_active :: bool
  notified :: "(bool \<times> string option) list"

definition render_brush :: "Lib \<Rightarrow> LineBrush \<Rightarrow> LineBrush" where
  "render_brush L b =
     b\<lparr>linePath_d := lineGenerator L [start_point b, end_point b],
       linePath_display := visible b\<rparr>"

text \<open>The brush after \<open>lineBrush(...)\<close> and \<open>initCanvas\<close>.\<close>

definition new_lineBrush :: "Lib \<Rightarrow> LineBrush" where
  "new_lineBrush L =
     \<lparr>started = False, ended = False, visible = False, start_point = (0, 0), end_point = (0, 0),
      linePath_d = lineGenerator L [(0, 0), (0, 0)], linePath_display = False,
      handles_active = False, notified = []\<rparr>"

definition brushCallback :: "LineBrush \<Rightarrow> LineBrush" where
  "brushCallback b = b\<lparr>notified := notified b @ [(visible b, linePath_d b)]\<rparr>"

definition evolve :: "Lib \<Rightarrow> Point \<Rightarrow> LineBrush \<Rightarrow> LineBrush" where
  "evolve L position b =
     render_brush L (if started b \<and> \<not> ended b then b\<lparr>end_point := position\<rparr> else b)"

definition process :: "Lib \<Rightarrow> Point \<Rightarrow> LineBrush \<Rightarrow> LineBrush" where
  "process L position b =
     render_brush L
       (if \<not> started b then
          b\<lparr>started := True, ended := False, visible := True,
            start_point := position, end_point := position\<rparr>
        else if \<not> ended b then
          brushCallback (b\<lparr>ended := True, end_point := position, handles_active := True\<rparr>)
        else b)"

definition cancel :: "Lib \<Rightarrow> LineBrush \<Rightarrow> LineBrush" where
  "cancel L b =
     render_brush L
       (brushCallback (b\<lparr>started := False, ended := False, visible := False,
                         handles_active := False\<rparr>))"

text \<open>\<open>getPath\<close>: the path of the brush when it is visible; the model returns its \<open>d\<close>.\<close>

definition getPath :: "LineBrush \<Rightarrow> string option option" where
  "getPath b = (if visible b then Some (linePath_d b) else None)"

text \<open>
  \<open>brushed(path)\<close>, for the attribute \<open>d\<close> of the item's path. A missing or empty attribute
  is falsy.
\<close>

definition brushed :: "Lib \<Rightarrow> LineBrush \<Rightarrow> string option \<Rightarrow> bool" where
  "brushed L b pathDescr =
     (case getPath b of
        Some lineDescr \<Rightarrow>
          (case (pathDescr, lineDescr) of
             (Some pd, Some ld) \<Rightarrow>
               if pd \<noteq> [] \<and> ld \<noteq> [] then pathIntersection L pd ld \<noteq> [] else True
           | _ \<Rightarrow> True)
      | None \<Rightarrow> True)"

section \<open>The chart (classes \<open>ParallelCoordinates\<close>, \<open>MultiCriteriaParallelCoordinates\<close>)\<close>

text \<open>
  A polyline of the foreground: the item bound to it, whether its class list holds
  \<open>brushed\<close>, and its attribute \<open>d\<close>.
\<close>

record Polyline =
  datum :: DataRow
  brushed_class :: bool
  d_attr :: "string option"

text \<open>
  The chart. \<open>axes\<close> and \<open>dragging\<close> are objects used as dictionaries, kept in the order in
  which their keys were inserted, the order in which JavaScript lists the keys that are not
  integer indices (names of dimensions that are integer indices would come first there).
  \<open>xScale_domain\<close> is the domain of the point scale. \<open>lineBrush\<close> is \<open>None\<close> in the base
  class \<open>ParallelCoordinates\<close>, which has no line brush.
\<close>

record Chart =
  data :: DataRows
  dimensions :: "Dimension list"
  canvasHeight :: real
  canvasWidth :: real
  options_width :: real
  xScale_domain :: "string list"
  axes :: "(string \<times> Axis) list"
  dragging :: "(string \<times> real) list"
  polylines :: "Polyline list"
  lineBrush :: "LineBrush option"

subsection \<open>Selection\<close>

text \<open>\<open>every\<close> over the axes: it stops at the first axis that does not select the item.\<close>

fun every_isBrushed :: "Lib \<Rightarrow> Axis list \<Rightarrow> DataRow \<Rightarrow> error + bool" where
  "every_isBrushed L [] item = Inr True"
| "every_isBrushed L (a # as) item =
     (case isBrushed L a (get item (name (dimension a))) of
        Inl e \<Rightarrow> Inl e
      | Inr b \<Rightarrow> if b then every_isBrushed L as item else Inr False)"

text \<open>
  \<open>isBrushed(node)\<close> of the chart; with a line brush, the override of
  \<open>MultiCriteriaParallelCoordinates\<close>.
\<close>

definition isBrushed_chart :: "Lib \<Rightarrow> Chart \<Rightarrow> Polyline \<Rightarrow> error + bool" where
  "isBrushed_chart L s node =
     (case every_isBrushed L (map snd (axes s)) (datum node) of
        Inl e \<Rightarrow> Inl e
      | Inr brushedByAxes \<Rightarrow>
          (let brushedByLine =
                 (case lineBrush s of None \<Rightarrow> True | Some b \<Rightarrow> brushed L b (d_attr node))
           in Inr (brushedByAxes \<and> brushedByLine)))"

text \<open>What \<open>brush(dir)\<close> does to one polyline.\<close>

definition brush_polyline ::
  "Lib \<Rightarrow> Chart \<Rightarrow> BRUSHING_DIRECTION option \<Rightarrow> Polyline \<Rightarrow> error + Polyline" where
  "brush_polyline L s dir node =
     (case dir of
        Some EXTEND \<Rightarrow>
          if \<not> brushed_class node then
            (case isBrushed_chart L s node of
               Inl e \<Rightarrow> Inl e
             | Inr b \<Rightarrow> Inr (if b then node\<lparr>brushed_class := True\<rparr> else node))
          else Inr node
      | Some SHRINK \<Rightarrow>
          if brushed_class node then
            (case isBrushed_chart L s node of
               Inl e \<Rightarrow> Inl e
             | Inr b \<Rightarrow> Inr (if \<not> b then node\<lparr>brushed_class := False\<rparr> else node))
          else Inr node
      | None \<Rightarrow>
          (case isBrushed_chart L s node of
             Inl e \<Rightarrow> Inl e
           | Inr b \<Rightarrow> Inr (node\<lparr>brushed_class := b\<rparr>)))"

text \<open>
  The loop over the polylines. When a test throws, the polylines before it keep their
  new class and the others are left as they were.
\<close>

fun brush_each ::
  "Lib \<Rightarrow> Chart \<Rightarrow> BRUSHING_DIRECTION option \<Rightarrow> Polyline list
     \<Rightarrow> (error \<times> Polyline list) + Polyline list" where
  "brush_each L s dir [] = Inr []"
| "brush_each L s dir (node # nodes) =
     (case brush_polyline L s dir node of
        Inl e \<Rightarrow> Inl (e, node # nodes)
      | Inr node' \<Rightarrow>
          (case brush_each L s dir nodes of
             Inl (e, nodes') \<Rightarrow> Inl (e, node' # nodes')
           | Inr nodes' \<Rightarrow> Inr (node' # nodes')))"

definition brush :: "Lib \<Rightarrow> BRUSHING_DIRECTION option \<Rightarrow> Chart \<Rightarrow> (error \<times> Chart) + Chart" where
  "brush L dir s =
     (case brush_each L s dir (polylines s) of
        Inl (e, nodes) \<Rightarrow> Inl (e, s\<lparr>polylines := nodes\<rparr>)
      | Inr nodes \<Rightarrow> Inr (s\<lparr>polylines := nodes\<rparr>))"

text \<open>
  The selection as the specification words it: the conjunction, over all axes, of the
  range brush's membership test, and the line brush's membership test.
\<close>

definition selected_spec :: "Lib \<Rightarrow> Chart \<Rightarrow> Polyline \<Rightarrow> bool" where
  "selected_spec L s node =
     (list_all (\<lambda>a. isBrushed L a (get (datum node) (name (dimension a))) = Inr True)
               (map snd (axes s)) \<and>
      (case lineBrush s of None \<Rightarrow> True | Some b \<Rightarrow> brushed L b (d_attr node)))"

subsection \<open>Positions and dragging\<close>

definition position :: "Lib \<Rightarrow> Chart \<Rightarrow> string \<Rightarrow> real" where
  "position L s d =
     (case map_of (dragging s) d of
        Some x \<Rightarrow> x
      | None \<Rightarrow> xScale L (xScale_domain s) d)"

text \<open>
  The handlers of the drag of an axis. Repainting (the groups' transforms, the lines'
  paths) is left out. \<open>sort\<close> is stable and ascending in \<open>position\<close>.
\<close>

definition drag_start :: "Lib \<Rightarrow> string \<Rightarrow> Chart \<Rightarrow> Chart" where
  "drag_start L d s =
     s\<lparr>dragging := AList.update d (xScale L (xScale_domain s) d) (dragging s)\<rparr>"

definition drag :: "Lib \<Rightarrow> string \<Rightarrow> real \<Rightarrow> Chart \<Rightarrow> Chart" where
  "drag L d event_x s =
     (let s1 = s\<lparr>dragging := AList.update d (min (options_width s) (max 0 event_x)) (dragging s)\<rparr>;
          sorted_dimensions = sort_key (\<lambda>dm. position L s1 (name dm)) (dimensions s1)
      in s1\<lparr>dimensions := sorted_dimensions, xScale_domain := map name sorted_dimensions\<rparr>)"

definition drag_end :: "string \<Rightarrow> Chart \<Rightarrow> Chart" where
  "drag_end d s =
     s\<lparr>dragging := AList.delete d (dragging s), xScale_domain := map name (dimensions s)\<rparr>"

subsection \<open>Data updates\<close>

text \<open>
  \<open>generateAxis\<close>: a \<open>DefaultAxis\<close> in the base class; in the override an \<open>ObjectiveAxis\<close>
  for an objective and a \<open>ParameterAxis\<close> otherwise.
\<close>

definition generateAxis :: "Chart \<Rightarrow> Dimension \<Rightarrow> error + Axis" where
  "generateAxis s d =
     (case lineBrush s of
        None \<Rightarrow> Inr (new_DefaultAxis DefaultAxis d)
      | Some _ \<Rightarrow>
          if hasTypeObjective d then new_ObjectiveAxis d
          else Inr (new_DefaultAxis ParameterAxis d))"

definition updateAxis :: "Axis \<Rightarrow> Chart \<Rightarrow> Chart" where
  "updateAxis axis s =
     (let d = dimension axis;
          rng = (canvasHeight s, 0);
          axis1 = setScale rng (statistics d) axis;
          invalidDimValues =
            filter (\<lambda>v. v = Str ''NaN'') (map (\<lambda>item. get item (name d)) (data s));
          axis2 = setNANIndicatorEnabled (length invalidDimValues > 0) axis1
      in s\<lparr>axes := AList.update (name d) axis2 (axes s)\<rparr>)"

fun findIndex :: "('a \<Rightarrow> bool) \<Rightarrow> 'a list \<Rightarrow> nat option" where
  "findIndex P [] = None"
| "findIndex P (x # xs) = (if P x then Some 0 else map_option Suc (findIndex P xs))"

text \<open>
  The loop of \<open>updateAxes\<close> over the copy of \<open>toBeModified\<close>: a dimension that became an
  objective, or stopped being one, is moved to \<open>toBeRemoved\<close> and \<open>toBeAdded\<close>.
  (\<open>findIndex\<close> finds an entry whenever the loop asks for one; for \<open>-1\<close>, \<open>splice\<close> takes
  the last entry, and from an empty array it yields \<open>undefined\<close>, whose name cannot be
  read.)
\<close>

fun move_changed ::
  "Dimension list \<Rightarrow> Dimension list \<Rightarrow> Dimension list \<times> Dimension list \<times> Dimension list
     \<Rightarrow> error + (Dimension list \<times> Dimension list \<times> Dimension list)" where
  "move_changed oldDimensions [] acc = Inr acc"
| "move_changed oldDimensions (d # copy) (toBeModified, toBeRemoved, toBeAdded) =
     (case find (\<lambda>oldDim. name oldDim = name d) oldDimensions of
        None \<Rightarrow> move_changed oldDimensions copy (toBeModified, toBeRemoved, toBeAdded)
      | Some oldDim \<Rightarrow>
          if hasTypeObjective d \<noteq> hasTypeObjective oldDim then
            (case findIndex (\<lambda>modDim. name modDim = name d) toBeModified of
               Some itemIdx \<Rightarrow>
                 (let toBeGenerated = toBeModified ! itemIdx
                  in move_changed oldDimensions copy
                       (take itemIdx toBeModified @ drop (Suc itemIdx) toBeModified,
                        toBeRemoved @ [toBeGenerated], toBeAdded @ [toBeGenerated]))
             | None \<Rightarrow>
                 if toBeModified = [] then Inl TypeError
                 else
                   (let toBeGenerated = last toBeModified
                    in move_changed oldDimensions copy
                         (butlast toBeModified,
                          toBeRemoved @ [toBeGenerated], toBeAdded @ [toBeGenerated])))
          else move_changed oldDimensions copy (toBeModified, toBeRemoved, toBeAdded))"

definition remove_axes :: "Dimension list \<Rightarrow> Chart \<Rightarrow> Chart" where
  "remove_axes toBeRemoved s =
     foldl (\<lambda>s' d. s'\<lparr>axes := AList.delete (name d) (axes s')\<rparr>) s toBeRemoved"

fun modify_axes :: "Dimension list \<Rightarrow> Chart \<Rightarrow> (error \<times> Chart) + Chart" where
  "modify_axes [] s = Inr s"
| "modify_axes (d # toBeModified) s =
     (case map_of (axes s) (name d) of
        None \<Rightarrow> Inl (TypeError, s)
      | Some axis \<Rightarrow>
          (let axis1 = setDimension d axis
           in case clearBrush axis1 of
                Inl e \<Rightarrow> Inl (e, s\<lparr>axes := AList.update (name d) axis1 (axes s)\<rparr>)
              | Inr axis2 \<Rightarrow> modify_axes toBeModified (updateAxis axis2 s)))"

fun add_axes :: "Dimension list \<Rightarrow> Chart \<Rightarrow> (error \<times> Chart) + Chart" where
  "add_axes [] s = Inr s"
| "add_axes (d # toBeAdded) s =
     (case generateAxis s d of
        Inl e \<Rightarrow> Inl (e, s)
      | Inr axis \<Rightarrow> add_axes toBeAdded (updateAxis axis s))"

definition updateAxes :: "Dimension list \<Rightarrow> Chart \<Rightarrow> (error \<times> Chart) + Chart" where
  "updateAxes oldDimensions s0 =
     (let s = s0\<lparr>xScale_domain := map name (dimensions s0)\<rparr>;
          toBeRemoved =
            filter (\<lambda>oldDim. name oldDim \<notin> set (map name (dimensions s))) oldDimensions;
          toBeAdded = filter (\<lambda>d. name d \<notin> set (map name oldDimensions)) (dimensions s);
          toBeModified = filter (\<lambda>d. name d \<in> set (map name oldDimensions)) (dimensions s)
      in case move_changed oldDimensions toBeModified (toBeModified, toBeRemoved, toBeAdded) of
           Inl e \<Rightarrow> Inl (e, s)
         | Inr (toBeModified', toBeRemoved', toBeAdded') \<Rightarrow>
             (case modify_axes toBeModified' (remove_axes toBeRemoved' s) of
                Inl failure \<Rightarrow> Inl failure
              | Inr s' \<Rightarrow> add_axes toBeAdded' s'))"

definition setDimensions :: "Dimension list \<Rightarrow> Chart \<Rightarrow> (error \<times> Chart) + Chart" where
  "setDimensions dims s =
     (let oldDimensions = dimensions s;
          isSubset = list_all (\<lambda>d. list_all (\<lambda>row. has_key (name d) row) (data s)) dims
      in if isSubset then updateAxes oldDimensions (s\<lparr>dimensions := dims\<rparr>)
         else Inl (DimensionMismatch, s))"

text \<open>
  \<open>setRows\<close>. The loop over the new columns (\<open>reconcile\<close>) throws at the first column whose
  type differs from the dimension of the same name, and otherwise takes over \<open>obj\<close>, \<open>unit\<close>
  and \<open>color\<close> where the column has none. A failure is returned with the chart as the
  exception leaves it.
\<close>

definition inherit_metadata :: "Dimension \<Rightarrow> Dimension \<Rightarrow> Dimension" where
  "inherit_metadata existingDim col =
     (let col1 = (if obj col = None \<and> obj existingDim \<noteq> None
                  then col\<lparr>obj := obj existingDim\<rparr> else col);
          col2 = (if unit col1 = None \<and> unit existingDim \<noteq> None
                  then col1\<lparr>unit := unit existingDim\<rparr> else col1)
      in if color col2 = None \<and> color existingDim \<noteq> None
         then col2\<lparr>color := color existingDim\<rparr> else col2)"

fun reconcile :: "Dimension list \<Rightarrow> Dimension list \<Rightarrow> error + Dimension list" where
  "reconcile oldDimensions [] = Inr []"
| "reconcile oldDimensions (col # columns) =
     (case find (\<lambda>oldDim. name oldDim = name col) oldDimensions of
        None \<Rightarrow>
          (case reconcile oldDimensions columns of
             Inl e \<Rightarrow> Inl e
           | Inr cols \<Rightarrow> Inr (col # cols))
      | Some existingDim \<Rightarrow>
          if attr_type col \<noteq> attr_type existingDim then Inl (TypeChanged (name col))
          else
            (case reconcile oldDimensions columns of
               Inl e \<Rightarrow> Inl e
             | Inr cols \<Rightarrow> Inr (inherit_metadata existingDim col # cols)))"

definition setRows :: "DataRows \<Rightarrow> Chart \<Rightarrow> (error \<times> Chart) + Chart" where
  "setRows rows s =
     (case prepareData rows of
        Inl e \<Rightarrow> Inl (e, s)
      | Inr (columns, modifiedRows) \<Rightarrow>
          (let s1 = s\<lparr>data := modifiedRows\<rparr>
           in case reconcile (dimensions s1) columns of
                Inl e \<Rightarrow> Inl (e, s1)
              | Inr columns' \<Rightarrow> setDimensions columns' s1))"

section \<open>Example data\<close>

text \<open>
  An instance of the library functions (a linear axis scale, axes placed 100 pixels apart,
  a fixed line description, an intersection test that knows one crossing path, the exact
  difference, which is the difference of doubles on the integers used below, and a
  translation read back as written), and
  the axis \<open>Speed\<close> with domain \<open>[0, 100]\<close> on the pixels \<open>[0, 300]\<close>, an objective axis and
  an idle event loop.
\<close>

definition example_domainToRange :: "AxisScale \<Rightarrow> val \<Rightarrow> real option" where
  "example_domainToRange sc v =
     (case (scale_domain sc, v) of
        (MinMax (Fin d0) (Fin d1), Num (Fin x)) \<Rightarrow>
          if d0 = d1 then Some ((fst (scale_range sc) + snd (scale_range sc)) / 2)
          else Some (fst (scale_range sc)
                     + (x - d0) / (d1 - d0) * (snd (scale_range sc) - fst (scale_range sc)))
      | _ \<Rightarrow> None)"

definition example_Lib :: Lib where
  "example_Lib =
     \<lparr>domainToRange = example_domainToRange,
      xScale = (\<lambda>names n. 100 * real (length (takeWhile (\<lambda>m. m \<noteq> n) names))),
      lineGenerator = (\<lambda>points. if points = [] then None else Some ''M''),
      pathIntersection = (\<lambda>pd ld. if pd = ''crossing'' then [(0, 0)] else []),
      float_sub = (\<lambda>x y. x - y),
      getTranslation = (\<lambda>y. y)\<rparr>"

definition speed :: Dimension where
  "speed = \<lparr>name = ''Speed'', unit = None, attr_type = NUMERICAL, color = None,
            statistics = MinMax (Fin 0) (Fin 100), obj = None\<rparr>"

definition labelled_axis :: "(real \<times> real) option \<Rightarrow> real option \<Rightarrow> real option \<Rightarrow> Axis" where
  "labelled_axis sel upper lower =
     \<lparr>axis_class = DefaultAxis, dimension = speed,
      scale = \<lparr>scale_kind = NUMERICAL, scale_domain = MinMax (Fin 0) (Fin 100),
               scale_range = (0, 300)\<rparr>,
      brushGroup = Some (Node \<lparr>selection = sel, upper_y = upper, lower_y = lower,
                               handle_y = None\<rparr>),
      NANIndicatorEnabled = False, timerId = None\<rparr>"

definition speed_axis :: "(real \<times> real) option \<Rightarrow> Axis" where
  "speed_axis sel = labelled_axis sel None None"

definition cost :: Dimension where
  "cost = \<lparr>name = ''Cost'', unit = None, attr_type = NUMERICAL, color = None,
           statistics = MinMax (Fin 0) (Fin 10), obj = Some (ObjType OPT_MIN)\<rparr>"

definition cost_axis :: "(real \<times> real) option \<Rightarrow> Axis" where
  "cost_axis sel =
     \<lparr>axis_class = ObjectiveAxis, dimension = cost,
      scale = \<lparr>scale_kind = NUMERICAL, scale_domain = MinMax (Fin 0) (Fin 10),
               scale_range = (300, 0)\<rparr>,
      brushGroup = Some (Node \<lparr>selection = sel, upper_y = None, lower_y = None,
                               handle_y = None\<rparr>),
      NANIndicatorEnabled = False, timerId = None\<rparr>"

definition idle_loop :: Loop where
  "idle_loop = \<lparr>timers = [], fresh = 1, calls = []\<rparr>"

text \<open>
  A chart of three axes and three items. The brush of \<open>Speed\<close> selects the pixels
  \<open>[150, 300]\<close> (the values from 50 on), the brush of \<open>Cost\<close> the values up to 5, the axis
  \<open>Weight\<close> has no brush and the line brush is idle: only the third item is selected.
\<close>

definition weight :: Dimension where
  "weight = \<lparr>name = ''Weight'', unit = None, attr_type = NUMERICAL, color = None,
             statistics = MinMax (Fin 1) (Fin 3), obj = None\<rparr>"

definition weight_axis :: Axis where
  "weight_axis =
     \<lparr>axis_class = ParameterAxis, dimension = weight,
      scale = \<lparr>scale_kind = NUMERICAL, scale_domain = MinMax (Fin 1) (Fin 3),
               scale_range = (300, 0)\<rparr>,
      brushGroup = Some (Node \<lparr>selection = None, upper_y = None, lower_y = None,
                               handle_y = None\<rparr>),
      NANIndicatorEnabled = False, timerId = None\<rparr>"

definition example_rows :: DataRows where
  "example_rows =
     [[(''ID'', Num (Fin 0)), (''Speed'', Num (Fin 10)), (''Cost'', Num (Fin 2)), (''Weight'', Num (Fin 1))],
      [(''ID'', Num (Fin 1)), (''Speed'', Num (Fin 50)), (''Cost'', Num (Fin 9)), (''Weight'', Num (Fin 2))],
      [(''ID'', Num (Fin 2)), (''Speed'', Num (Fin 90)), (''Cost'', Num (Fin 2)), (''Weight'', Num (Fin 3))]]"

definition example_chart :: Chart where
  "example_chart =
     \<lparr>data = example_rows,
      dimensions = [speed, cost, weight],
      canvasHeight = 300, canvasWidth = 990, options_width = 1100,
      xScale_domain = [''Speed'', ''Cost'', ''Weight''],
      axes = [(''Speed'', speed_axis (Some (150, 300))), (''Cost'', cost_axis (Some (150, 300))),
              (''Weight'', weight_axis)],
      dragging = [],
      polylines = map2 (\<lambda>row b. \<lparr>datum = row, brushed_class = b, d_attr = Some ''disjoint''\<rparr>)
                       example_rows [False, False, True],
      lineBrush = Some (new_lineBrush example_Lib)\<rparr>"

section \<open>Properties of data preparation\<close>

subsection \<open>Minimum and maximum\<close>

lemma js_less_irrefl: "\<not> js_less a a"
  by (cases a) auto

lemma js_less_trans: "js_less a b \<Longrightarrow> js_less b c \<Longrightarrow> js_less a c"
  by (cases a; cases b; cases c) auto

lemma js_less_total: "a \<noteq> NaN \<Longrightarrow> b \<noteq> NaN \<Longrightarrow> js_less a b \<or> a = b \<or> js_less b a"
  by (cases a; cases b) auto

lemma js_less_asym: "js_less a b \<Longrightarrow> \<not> js_less b a"
  using js_less_irrefl js_less_trans by blast

lemma foldl_min2:
  "m \<noteq> NaN \<Longrightarrow> NaN \<notin> set xs \<Longrightarrow>
   foldl min2 m xs \<in> insert m (set xs) \<and> (\<forall>x \<in> insert m (set xs). \<not> js_less x (foldl min2 m xs))"
proof (induction xs arbitrary: m)
  case Nil
  then show ?case by (simp add: js_less_irrefl)
next
  case (Cons x xs)
  have x: "x \<noteq> NaN" and xs: "NaN \<notin> set xs" using Cons.prems by auto
  have m2: "min2 m x \<noteq> NaN" using Cons.prems x by (simp add: min2_def)
  note IH = Cons.IH [OF m2 xs]
  have mem: "min2 m x \<in> {m, x}" by (auto simp: min2_def)
  have le_m: "\<not> js_less m (min2 m x)" 
    using Cons.prems x js_less_irrefl js_less_asym by (auto simp: min2_def)
  have le_x: "\<not> js_less x (min2 m x)"
    using Cons.prems x js_less_irrefl by (auto simp: min2_def)
  let ?r = "foldl min2 (min2 m x) xs"
  have r_le: "\<not> js_less (min2 m x) ?r" using IH by simp
  have "\<not> js_less m ?r"
  proof
    assume a: "js_less m ?r"
    have "?r \<noteq> NaN" using IH m2 xs by auto
    then have "js_less ?r (min2 m x) \<or> ?r = min2 m x" using js_less_total [OF _ m2, of ?r] r_le by auto
    then have "js_less m (min2 m x)" using a js_less_trans by auto
    then show False using le_m by simp
  qed
  moreover have "\<not> js_less x ?r"
  proof
    assume a: "js_less x ?r"
    have "?r \<noteq> NaN" using IH m2 xs by auto
    then have "js_less ?r (min2 m x) \<or> ?r = min2 m x" using js_less_total [OF _ m2, of ?r] r_le by auto
    then have "js_less x (min2 m x)" using a js_less_trans by auto
    then show False using le_x by simp
  qed
  ultimately show ?case using IH mem by auto
qed

lemma foldl_max2:
  "m \<noteq> NaN \<Longrightarrow> NaN \<notin> set xs \<Longrightarrow>
   foldl max2 m xs \<in> insert m (set xs) \<and> (\<forall>x \<in> insert m (set xs). \<not> js_less (foldl max2 m xs) x)"
proof (induction xs arbitrary: m)
  case Nil
  then show ?case by (simp add: js_less_irrefl)
next
  case (Cons x xs)
  have x: "x \<noteq> NaN" and xs: "NaN \<notin> set xs" using Cons.prems by auto
  have m2: "max2 m x \<noteq> NaN" using Cons.prems x by (simp add: max2_def)
  note IH = Cons.IH [OF m2 xs]
  have mem: "max2 m x \<in> {m, x}" by (auto simp: max2_def)
  have le_m: "\<not> js_less (max2 m x) m" 
    using Cons.prems x js_less_irrefl js_less_asym by (auto simp: max2_def)
  have le_x: "\<not> js_less (max2 m x) x"
    using Cons.prems x js_less_irrefl by (auto simp: max2_def)
  let ?r = "foldl max2 (max2 m x) xs"
  have r_le: "\<not> js_less ?r (max2 m x)" using IH by simp
  have "\<not> js_less ?r m"
  proof
    assume a: "js_less ?r m"
    have "?r \<noteq> NaN" using IH m2 xs by auto
    then have "js_less (max2 m x) ?r \<or> ?r = max2 m x" using js_less_total [OF m2, of ?r] r_le by auto
    then have "js_less (max2 m x) m" using a js_less_trans by auto
    then show False using le_m by simp
  qed
  moreover have "\<not> js_less ?r x"
  proof
    assume a: "js_less ?r x"
    have "?r \<noteq> NaN" using IH m2 xs by auto
    then have "js_less (max2 m x) ?r \<or> ?r = max2 m x" using js_less_total [OF m2, of ?r] r_le by auto
    then have "js_less (max2 m x) x" using a js_less_trans by auto
    then show False using le_x by simp
  qed
  ultimately show ?case using IH mem by auto
qed

lemma Math_min_least:
  assumes "NaN \<notin> set xs" "xs \<noteq> []"
  shows "Math_min xs \<in> set xs" and "\<forall>x\<in>set xs. \<not> js_less x (Math_min xs)"
proof -
  have f: "foldl min2 PosInf xs \<in> insert PosInf (set xs)"
    "\<forall>x \<in> insert PosInf (set xs). \<not> js_less x (foldl min2 PosInf xs)"
    using foldl_min2 [of PosInf xs] assms by auto
  show "\<forall>x\<in>set xs. \<not> js_less x (Math_min xs)" using f by (simp add: Math_min_def)
  show "Math_min xs \<in> set xs"
  proof (cases "foldl min2 PosInf xs = PosInf")
    case True
    obtain y where y: "y \<in> set xs" using assms by (cases xs) auto
    then have "\<not> js_less y PosInf" using f True by auto
    moreover have "y \<noteq> NaN" using y assms by auto
    ultimately have "y = PosInf" by (cases y) auto
    then show ?thesis using y True by (simp add: Math_min_def)
  next
    case False
    then show ?thesis using f by (simp add: Math_min_def)
  qed
qed

lemma Math_max_greatest:
  assumes "NaN \<notin> set xs" "xs \<noteq> []"
  shows "Math_max xs \<in> set xs" and "\<forall>x\<in>set xs. \<not> js_less (Math_max xs) x"
proof -
  have f: "foldl max2 NegInf xs \<in> insert NegInf (set xs)"
    "\<forall>x \<in> insert NegInf (set xs). \<not> js_less (foldl max2 NegInf xs) x"
    using foldl_max2 [of NegInf xs] assms by auto
  show "\<forall>x\<in>set xs. \<not> js_less (Math_max xs) x" using f by (simp add: Math_max_def)
  show "Math_max xs \<in> set xs"
  proof (cases "foldl max2 NegInf xs = NegInf")
    case True
    obtain y where y: "y \<in> set xs" using assms by (cases xs) auto
    then have "\<not> js_less NegInf y" using f True by auto
    moreover have "y \<noteq> NaN" using y assms by auto
    ultimately have "y = NegInf" by (cases y) auto
    then show ?thesis using y True by (simp add: Math_max_def)
  next
    case False
    then show ?thesis using f by (simp add: Math_max_def)
  qed
qed

lemma Math_min_eqI:
  assumes "NaN \<notin> set xs" "a \<in> set xs" "\<forall>x\<in>set xs. \<not> js_less x a"
  shows "Math_min xs = a"
proof -
  have ne: "xs \<noteq> []" using assms by auto
  note m = Math_min_least [OF assms(1) ne]
  have "\<not> js_less (Math_min xs) a" using assms m by auto
  moreover have "\<not> js_less a (Math_min xs)" using assms m by auto
  moreover have "a \<noteq> NaN" "Math_min xs \<noteq> NaN" using assms m by auto
  ultimately show ?thesis using js_less_total by blast
qed

lemma Math_max_eqI:
  assumes "NaN \<notin> set xs" "a \<in> set xs" "\<forall>x\<in>set xs. \<not> js_less a x"
  shows "Math_max xs = a"
proof -
  have ne: "xs \<noteq> []" using assms by auto
  note m = Math_max_greatest [OF assms(1) ne]
  have "\<not> js_less (Math_max xs) a" using assms m by auto
  moreover have "\<not> js_less a (Math_max xs)" using assms m by auto
  moreover have "a \<noteq> NaN" "Math_max xs \<noteq> NaN" using assms m by auto
  ultimately show ?thesis using js_less_total by blast
qed

lemma deriveColumnMetaData_Inr_D:
  "deriveColumnMetaData columns rows = Inr ds \<Longrightarrow>
   list_all2 (\<lambda>c d. deriveColumn c rows = Inr d) columns ds"
  by (induction columns arbitrary: ds) (auto split: sum.splits)

lemma deriveColumnMetaData_Inr_I:
  "list_all2 (\<lambda>c d. deriveColumn c rows = Inr d) columns ds \<Longrightarrow>
   deriveColumnMetaData columns rows = Inr ds"
  by (induction columns ds rule: list_all2_induct) auto

lemma deriveColumnMetaData_Inl:
  "deriveColumnMetaData columns rows = Inl e \<Longrightarrow> \<exists>c\<in>set columns. deriveColumn c rows = Inl e"
  by (induction columns) (auto split: sum.splits)


subsection \<open>Columns\<close>

lemma update_absent: "k \<notin> fst ` set al \<Longrightarrow> AList.update k v al = al @ [(k, v)]"
  by (induction al) auto

lemma valid_numbers_filter:
  "list_all numeric_or_marker vs \<Longrightarrow>
   filter (\<lambda>n. \<not> isNaN n) (map Number vs) = valid_numbers vs"
  by (induction vs)
     (auto simp: valid_numbers_def numeric_or_marker_def is_number_def isNaN_def split: val.splits)

lemma deriveColumn_cases:
  "deriveColumn c rows =
     (if list_all numeric_or_marker (attr_values c rows) then
        Inr \<lparr>name = c, unit = None, attr_type = NUMERICAL, color = None,
             statistics = MinMax (Math_min (valid_numbers (attr_values c rows)))
                                 (Math_max (valid_numbers (attr_values c rows))),
             obj = None\<rparr>
      else if list_all is_string (attr_values c rows) then
        Inr \<lparr>name = c, unit = None, attr_type = NOMINAL, color = None,
             statistics = Categories (unique_first (map as_string (attr_values c rows))),
             obj = None\<rparr>
      else Inl (CouldNotDetermineType c))"
  by (simp add: deriveColumn_def Let_def valid_numbers_filter)

text \<open>
  Claim C6, as the code has it. Type inference throws exactly when some column is neither
  all numbers-or-marker nor all strings. When it returns, a column is NUMERICAL iff every
  value is a number or the marker \<open>''NaN''\<close>, and its statistics are the minimum and the
  maximum of its valid numbers; a column is NOMINAL iff every value is a string and not
  every value is the marker (the numerical test comes first).
\<close>

theorem deriveColumnMetaData_classification:
  "((\<exists>e. deriveColumnMetaData columns rows = Inl e) \<longleftrightarrow>
      (\<exists>c\<in>set columns. \<not> list_all numeric_or_marker (attr_values c rows) \<and>
                         \<not> list_all is_string (attr_values c rows))) \<and>
   (\<forall>ds. deriveColumnMetaData columns rows = Inr ds \<longrightarrow>
      length ds = length columns \<and>
      (\<forall>i<length columns.
         name (ds ! i) = columns ! i \<and>
         (attr_type (ds ! i) = NUMERICAL \<longleftrightarrow>
            list_all numeric_or_marker (attr_values (columns ! i) rows)) \<and>
         (attr_type (ds ! i) = NOMINAL \<longleftrightarrow>
            list_all is_string (attr_values (columns ! i) rows) \<and>
            \<not> list_all numeric_or_marker (attr_values (columns ! i) rows)) \<and>
         (attr_type (ds ! i) = NUMERICAL \<longrightarrow>
            statistics (ds ! i) =
              MinMax (Math_min (valid_numbers (attr_values (columns ! i) rows)))
                     (Math_max (valid_numbers (attr_values (columns ! i) rows))))))"
proof (intro conjI allI impI)
  show "(\<exists>e. deriveColumnMetaData columns rows = Inl e) \<longleftrightarrow>
      (\<exists>c\<in>set columns. \<not> list_all numeric_or_marker (attr_values c rows) \<and>
                         \<not> list_all is_string (attr_values c rows))"
  proof
    assume "\<exists>e. deriveColumnMetaData columns rows = Inl e"
    then obtain e c where "c \<in> set columns" "deriveColumn c rows = Inl e"
      using deriveColumnMetaData_Inl by blast
    then show "\<exists>c\<in>set columns. \<not> list_all numeric_or_marker (attr_values c rows) \<and>
                         \<not> list_all is_string (attr_values c rows)"
      by (auto simp: deriveColumn_cases split: if_splits)
  next
    assume "\<exists>c\<in>set columns. \<not> list_all numeric_or_marker (attr_values c rows) \<and>
                         \<not> list_all is_string (attr_values c rows)"
    then obtain c where c: "c \<in> set columns" "deriveColumn c rows = Inl (CouldNotDetermineType c)"
      by (auto simp: deriveColumn_cases)
    show "\<exists>e. deriveColumnMetaData columns rows = Inl e"
    proof (cases "deriveColumnMetaData columns rows")
      case (Inl e)
      then show ?thesis by blast
    next
      case (Inr ds)
      then have "list_all2 (\<lambda>c d. deriveColumn c rows = Inr d) columns ds"
        by (rule deriveColumnMetaData_Inr_D)
      then have "\<exists>d. deriveColumn c rows = Inr d"
        using c(1) by (auto simp: list_all2_conv_all_nth in_set_conv_nth)
      then show ?thesis using c(2) by simp
    qed
  qed
next
  fix ds
  assume a: "deriveColumnMetaData columns rows = Inr ds"
  then have l: "list_all2 (\<lambda>c d. deriveColumn c rows = Inr d) columns ds"
    by (rule deriveColumnMetaData_Inr_D)
  then show "length ds = length columns" by (simp add: list_all2_lengthD)
  fix i
  assume i: "i < length columns"
  have "deriveColumn (columns ! i) rows = Inr (ds ! i)"
    using l i by (simp add: list_all2_conv_all_nth)
  then have d: "Inr (ds ! i) = deriveColumn (columns ! i) rows" by simp
  show "name (ds ! i) = columns ! i"
    using d by (auto simp: deriveColumn_cases split: if_splits)
  show "attr_type (ds ! i) = NUMERICAL \<longleftrightarrow>
            list_all numeric_or_marker (attr_values (columns ! i) rows)"
    using d by (auto simp: deriveColumn_cases split: if_splits)
  show "attr_type (ds ! i) = NOMINAL \<longleftrightarrow>
            list_all is_string (attr_values (columns ! i) rows) \<and>
            \<not> list_all numeric_or_marker (attr_values (columns ! i) rows)"
    using d by (auto simp: deriveColumn_cases split: if_splits)
  show "statistics (ds ! i) =
              MinMax (Math_min (valid_numbers (attr_values (columns ! i) rows)))
                     (Math_max (valid_numbers (attr_values (columns ! i) rows)))"
    if "attr_type (ds ! i) = NUMERICAL"
    using d that by (auto simp: deriveColumn_cases split: if_splits)
qed


text \<open>
  The theorem at two columns: \<open>X\<close> holds a number and the marker, \<open>Y\<close> holds strings.
\<close>

theorem deriveColumnMetaData_classification_witness:
  "attr_type ([\<lparr>name = ''X'', unit = None, attr_type = NUMERICAL, color = None,
                statistics = MinMax (Fin 3) (Fin 3), obj = None\<rparr>,
               \<lparr>name = ''Y'', unit = None, attr_type = NOMINAL, color = None,
                statistics = Categories [''a'', ''b''], obj = None\<rparr>] ! 0) = NUMERICAL \<and>
   list_all numeric_or_marker
     (attr_values ''X'' [[(''X'', Num (Fin 3)), (''Y'', Str ''a'')],
                         [(''X'', Str ''NaN''), (''Y'', Str ''b'')]]) \<and>
   MinMax (Math_min (valid_numbers
             (attr_values ''X'' [[(''X'', Num (Fin 3)), (''Y'', Str ''a'')],
                                 [(''X'', Str ''NaN''), (''Y'', Str ''b'')]])))
          (Math_max (valid_numbers
             (attr_values ''X'' [[(''X'', Num (Fin 3)), (''Y'', Str ''a'')],
                                 [(''X'', Str ''NaN''), (''Y'', Str ''b'')]])))
     = MinMax (Fin 3) (Fin 3)"
proof -
  let ?rows = "[[(''X'', Num (Fin 3)), (''Y'', Str ''a'')],
                [(''X'', Str ''NaN''), (''Y'', Str ''b'')]]"
  have e: "deriveColumnMetaData [''X'', ''Y''] ?rows =
    Inr [\<lparr>name = ''X'', unit = None, attr_type = NUMERICAL, color = None,
          statistics = MinMax (Fin 3) (Fin 3), obj = None\<rparr>,
         \<lparr>name = ''Y'', unit = None, attr_type = NOMINAL, color = None,
          statistics = Categories [''a'', ''b''], obj = None\<rparr>]"
    by code_simp
  have i: "(0::nat) < length [''X'', ''Y'']" by simp
  from deriveColumnMetaData_classification [of "[''X'', ''Y'']" ?rows] e i
  show ?thesis by fastforce
qed

text \<open>
  The claim as stated fails on a column that holds only the marker: every value is a
  string, and the column is NUMERICAL, with the statistics of no value at all.
\<close>

theorem deriveColumnMetaData_marker_counterexample:
  "list_all is_string (attr_values ''X'' [[(''X'', Str ''NaN'')]]) \<and>
   deriveColumnMetaData [''X''] [[(''X'', Str ''NaN'')]] =
     Inr [\<lparr>name = ''X'', unit = None, attr_type = NUMERICAL, color = None,
           statistics = MinMax PosInf NegInf, obj = None\<rparr>]"
  by code_simp

subsection \<open>Generated IDs\<close>

lemma get_appended: "k \<notin> fst ` set row \<Longrightarrow> get (row @ [(k, v)]) k = v"
  using map_of_eq_None_iff [of row k] by (simp add: get_def map_add_def)

lemma insertIDs_no_ids:
  assumes "\<forall>row\<in>set rows. \<not> has_id row"
  shows "snd (insertIDs rows) =
         map (\<lambda>(i, row). row @ [(''ID'', Num (Fin (real i)))]) (enumerate 0 rows)"
proof -
  have "\<And>i row. (i, row) \<in> set (enumerate 0 rows) \<Longrightarrow>
      AList.update ''ID'' (Num (Fin (real i))) row = row @ [(''ID'', Num (Fin (real i)))]"
  proof -
    fix i row assume "(i, row) \<in> set (enumerate 0 rows)"
    then have "row \<in> set rows" by (auto simp: in_set_enumerate_eq)
    then have "''ID'' \<notin> fst ` set row" using assms by (auto simp: has_id_def has_key_def)
    then show "AList.update ''ID'' (Num (Fin (real i))) row = row @ [(''ID'', Num (Fin (real i)))]"
      by (rule update_absent)
  qed
  moreover have "\<And>i row. (i, row) \<in> set (enumerate 0 rows) \<Longrightarrow> \<not> has_id row"
    using assms by (auto simp: in_set_enumerate_eq)
  ultimately show ?thesis
    by (auto simp: insertIDs_def intro!: map_cong)
qed

lemma attr_values_ID:
  assumes "\<forall>row\<in>set rows. \<not> has_id row"
  shows "attr_values ''ID'' (map (\<lambda>(i, row). row @ [(''ID'', Num (Fin (real i)))]) (enumerate 0 rows))
         = map (\<lambda>i. Num (Fin (real i))) [0..<length rows]"
proof -
  have "\<And>i row. (i, row) \<in> set (enumerate 0 rows) \<Longrightarrow>
      get (row @ [(''ID'', Num (Fin (real i)))]) ''ID'' = Num (Fin (real i))"
  proof -
    fix i row assume "(i, row) \<in> set (enumerate 0 rows)"
    then have "row \<in> set rows" by (auto simp: in_set_enumerate_eq)
    then have "''ID'' \<notin> fst ` set row" using assms by (auto simp: has_id_def has_key_def)
    then show "get (row @ [(''ID'', Num (Fin (real i)))]) ''ID'' = Num (Fin (real i))"
      by (rule get_appended)
  qed
  then have "attr_values ''ID'' (map (\<lambda>(i, row). row @ [(''ID'', Num (Fin (real i)))]) (enumerate 0 rows))
      = map (\<lambda>p. Num (Fin (real (fst p)))) (enumerate 0 rows)"
    by (auto simp: attr_values_def)
  also have "\<dots> = map (\<lambda>i. Num (Fin (real i))) (map fst (enumerate 0 rows))"
    by (simp only: map_map comp_def)
  also have "\<dots> = map (\<lambda>i. Num (Fin (real i))) [0..<length rows]"
    by (simp only: map_fst_enumerate add_0)
  finally show ?thesis .
qed

lemma valid_numbers_indices:
  "valid_numbers (map (\<lambda>i. Num (Fin (real i))) is) = map (\<lambda>i. Fin (real i)) is"
  by (induction "is") (auto simp: valid_numbers_def)

lemma Math_min_indices: "0 < n \<Longrightarrow> Math_min (map (\<lambda>i. Fin (real i)) [0..<n]) = Fin 0"
  by (rule Math_min_eqI) (auto simp: image_iff)

lemma Math_max_indices: "0 < n \<Longrightarrow> Math_max (map (\<lambda>i. Fin (real i)) [0..<n]) = Fin (real (n - 1))"
  by (rule Math_max_eqI) (auto simp: image_iff intro!: bexI [of _ "n - 1"])

lemma deriveColumn_ID:
  assumes "rows \<noteq> []" "\<forall>row\<in>set rows. \<not> has_id row"
  shows "deriveColumn ''ID'' (map (\<lambda>(i, row). row @ [(''ID'', Num (Fin (real i)))]) (enumerate 0 rows))
    = Inr \<lparr>name = ''ID'', unit = None, attr_type = NUMERICAL, color = None,
           statistics = MinMax (Fin 0) (Fin (real (length rows - 1))), obj = None\<rparr>"
proof -
  have n: "0 < length rows" using assms by simp
  have "list_all numeric_or_marker (map (\<lambda>i. Num (Fin (real i))) [0..<length rows])"
    by (simp add: list_all_iff numeric_or_marker_def is_number_def)
  then show ?thesis
    by (simp add: deriveColumn_cases attr_values_ID [OF assms(2)] valid_numbers_indices
        Math_min_indices [OF n] Math_max_indices [OF n])
qed

text \<open>
  Claim C10, as the code has it: for a dataset that is not empty and in which no row has an
  \<open>ID\<close>, \<open>id\<close> or \<open>Id\<close> key, every row gets its index as \<open>ID\<close> (so the IDs are distinct),
  and \<open>prepareData\<close> derives the columns with \<open>ID\<close> in front, as a numerical attribute
  whose statistics are \<open>0\<close> and the last index.
\<close>

theorem prepareData_inserts_IDs:
  assumes "rows \<noteq> []" and "\<forall>row\<in>set rows. \<not> has_id row"
  shows "let rows' = map (\<lambda>(i, row). row @ [(''ID'', Num (Fin (real i)))]) (enumerate 0 rows) in
     insertIDs rows = (True, rows') \<and>
     map (\<lambda>row. get row ''ID'') rows' = map (\<lambda>i. Num (Fin (real i))) [0..<length rows] \<and>
     distinct (map (\<lambda>row. get row ''ID'') rows') \<and>
     prepareData rows =
       (case deriveColumnMetaData (initColumnsFromRows rows) rows' of
          Inl e \<Rightarrow> Inl e
        | Inr ds \<Rightarrow> Inr (\<lparr>name = ''ID'', unit = None, attr_type = NUMERICAL, color = None,
                          statistics = MinMax (Fin 0) (Fin (real (length rows - 1))),
                          obj = None\<rparr> # ds, rows'))"
proof -
  define rows' where "rows' = map (\<lambda>(i, row). row @ [(''ID'', Num (Fin (real i)))]) (enumerate 0 rows)"
  have g: "fst (insertIDs rows)"
    using assms by (cases rows) (auto simp: insertIDs_def)
  have s: "snd (insertIDs rows) = rows'"
    unfolding rows'_def by (rule insertIDs_no_ids [OF assms(2)])
  have i: "insertIDs rows = (True, rows')" using g s by (cases "insertIDs rows") simp
  have v: "map (\<lambda>row. get row ''ID'') rows' = map (\<lambda>i. Num (Fin (real i))) [0..<length rows]"
    using attr_values_ID [OF assms(2)] by (simp add: attr_values_def rows'_def)
  have "inj_on (\<lambda>i. Num (Fin (real i))) (set [0..<length rows])"
    by (auto simp: inj_on_def)
  then have dist: "distinct (map (\<lambda>row. get row ''ID'') rows')"
    by (simp add: v distinct_map)
  have d: "deriveColumn ''ID'' rows' = Inr \<lparr>name = ''ID'', unit = None, attr_type = NUMERICAL, color = None,
           statistics = MinMax (Fin 0) (Fin (real (length rows - 1))), obj = None\<rparr>"
    unfolding rows'_def by (rule deriveColumn_ID [OF assms])
  have p: "prepareData rows =
       (case deriveColumnMetaData (initColumnsFromRows rows) rows' of
          Inl e \<Rightarrow> Inl e
        | Inr ds \<Rightarrow> Inr (\<lparr>name = ''ID'', unit = None, attr_type = NUMERICAL, color = None,
                          statistics = MinMax (Fin 0) (Fin (real (length rows - 1))),
                          obj = None\<rparr> # ds, rows'))"
    by (simp add: prepareData_def i d split: sum.splits)
  show ?thesis
    unfolding Let_def rows'_def [symmetric] using i v dist p by simp
qed

text \<open>The theorem at a dataset of two rows.\<close>

theorem prepareData_inserts_IDs_witness:
  "insertIDs [[(''X'', Num (Fin 3))], [(''X'', Str ''NaN'')]] =
     (True, [[(''X'', Num (Fin 3)), (''ID'', Num (Fin 0))], [(''X'', Str ''NaN''), (''ID'', Num (Fin 1))]]) \<and>
   prepareData [[(''X'', Num (Fin 3))], [(''X'', Str ''NaN'')]] =
     Inr ([\<lparr>name = ''ID'', unit = None, attr_type = NUMERICAL, color = None,
            statistics = MinMax (Fin 0) (Fin 1), obj = None\<rparr>,
           \<lparr>name = ''X'', unit = None, attr_type = NUMERICAL, color = None,
            statistics = MinMax (Fin 3) (Fin 3), obj = None\<rparr>],
          [[(''X'', Num (Fin 3)), (''ID'', Num (Fin 0))], [(''X'', Str ''NaN''), (''ID'', Num (Fin 1))]])"
proof -
  have h1: "[[(''X'', Num (Fin 3))], [(''X'', Str ''NaN'')]] \<noteq> ([] :: DataRows)" by simp
  have h2: "\<forall>row\<in>set [[(''X'', Num (Fin 3))], [(''X'', Str ''NaN'')]]. \<not> has_id row"
    by (simp add: has_id_def has_key_def)
  have e: "deriveColumnMetaData (initColumnsFromRows [[(''X'', Num (Fin 3))], [(''X'', Str ''NaN'')]])
       [[(''X'', Num (Fin 3)), (''ID'', Num (Fin 0))], [(''X'', Str ''NaN''), (''ID'', Num (Fin 1))]]
     = Inr [\<lparr>name = ''X'', unit = None, attr_type = NUMERICAL, color = None,
            statistics = MinMax (Fin 3) (Fin 3), obj = None\<rparr>]"
    by code_simp
  show ?thesis
    using prepareData_inserts_IDs [OF h1 h2] e by (simp add: Let_def enumerate_simps)
qed

text \<open>
  For the empty dataset no row lacks an ID, no ID is generated and no column is added.
\<close>

theorem prepareData_empty_counterexample:
  "\<not> list_ex has_id [] \<and> prepareData [] = Inr ([], [])"
  by (simp add: prepareData_def initColumnsFromRows_def insertIDs_def)


section \<open>Properties of the axes\<close>

subsection \<open>Membership\<close>

lemma floor_half_nearest:
  fixes y :: real
  defines "k \<equiv> \<lfloor>y + 1 / 2\<rfloor>"
  shows "\<bar>real_of_int k - y\<bar> \<le> 1 / 2"
    and "\<bar>real_of_int k - y\<bar> = 1 / 2 \<Longrightarrow> real_of_int k = y + 1 / 2"
proof -
  have 1: "real_of_int k \<le> y + 1 / 2" unfolding k_def by (rule of_int_floor_le)
  have 2: "y + 1 / 2 < real_of_int k + 1" unfolding k_def by linarith
  show "\<bar>real_of_int k - y\<bar> \<le> 1 / 2" using 1 2 by linarith
  show "real_of_int k = y + 1 / 2" if "\<bar>real_of_int k - y\<bar> = 1 / 2" using 1 2 that by linarith
qed

lemma abs_scale6:
  fixes k y :: real
  shows "\<bar>k / 10 ^ 6 - y\<bar> = \<bar>k - y * 10 ^ 6\<bar> / 10 ^ 6"
proof -
  have "k / 10 ^ 6 - y = (k - y * 10 ^ 6) / 10 ^ 6" by (simp add: field_simps)
  then show ?thesis by (simp only: abs_divide) simp
qed

lemma toFixed6_rounds_nonneg:
  fixes y :: real
  defines "r \<equiv> real_of_int \<lfloor>y * 10 ^ 6 + 1 / 2\<rfloor> / 10 ^ 6"
  assumes "0 \<le> y"
  shows "\<bar>r - y\<bar> \<le> 5 / 10 ^ 7" and "\<bar>r - y\<bar> = 5 / 10 ^ 7 \<Longrightarrow> y < r" and "0 \<le> r"
proof -
  let ?k = "real_of_int \<lfloor>y * 10 ^ 6 + 1 / 2\<rfloor>"
  have d: "\<bar>r - y\<bar> = \<bar>?k - y * 10 ^ 6\<bar> / 10 ^ 6" unfolding r_def by (rule abs_scale6)
  have le: "\<bar>?k - y * 10 ^ 6\<bar> \<le> 1 / 2" by (rule floor_half_nearest)
  show "\<bar>r - y\<bar> \<le> 5 / 10 ^ 7" using le unfolding d by simp
  show "y < r" if "\<bar>r - y\<bar> = 5 / 10 ^ 7"
  proof -
    have "\<bar>?k - y * 10 ^ 6\<bar> = 1 / 2" using that unfolding d by simp
    then have "?k = y * 10 ^ 6 + 1 / 2" by (rule floor_half_nearest)
    then have "r = y + 5 / 10 ^ 7" unfolding r_def by simp
    then show ?thesis by simp
  qed
  have "0 \<le> \<lfloor>y * 10 ^ 6 + 1 / 2\<rfloor>" using assms(2) by simp
  then show "0 \<le> r" unfolding r_def by simp
qed

lemma toFixed6_rounds:
  assumes "\<bar>x\<bar> < 10 ^ 21"
  shows "\<exists>k::int. toFixed6 x = real_of_int k / 10 ^ 6"
    and "\<bar>toFixed6 x - x\<bar> \<le> 5 / 10 ^ 7"
    and "\<bar>toFixed6 x - x\<bar> = 5 / 10 ^ 7 \<Longrightarrow> \<bar>x\<bar> < \<bar>toFixed6 x\<bar>"
proof -
  have small: "\<not> \<bar>x\<bar> \<ge> 10 ^ 21" using assms by simp
  show "\<exists>k::int. toFixed6 x = real_of_int k / 10 ^ 6"
  proof (cases "x < 0")
    case True
    then have "toFixed6 x = real_of_int (- \<lfloor>- x * 10 ^ 6 + 1 / 2\<rfloor>) / 10 ^ 6"
      using small by (simp add: toFixed6_def)
    then show ?thesis by blast
  next
    case False
    then have "toFixed6 x = real_of_int \<lfloor>x * 10 ^ 6 + 1 / 2\<rfloor> / 10 ^ 6"
      using small by (simp add: toFixed6_def)
    then show ?thesis by blast
  qed
  show "\<bar>toFixed6 x - x\<bar> \<le> 5 / 10 ^ 7"
  proof (cases "x < 0")
    case True
    define r where "r = real_of_int \<lfloor>- x * 10 ^ 6 + 1 / 2\<rfloor> / 10 ^ 6"
    have t: "toFixed6 x = - r" using True small by (simp add: toFixed6_def r_def)
    have e: "\<bar>- r - x\<bar> = \<bar>r - (- x)\<bar>" by linarith
    have "\<bar>r - (- x)\<bar> \<le> 5 / 10 ^ 7"
      unfolding r_def using True by (intro toFixed6_rounds_nonneg) simp
    then show ?thesis unfolding t e .
  next
    case False
    define r where "r = real_of_int \<lfloor>x * 10 ^ 6 + 1 / 2\<rfloor> / 10 ^ 6"
    have t: "toFixed6 x = r" using False small by (simp add: toFixed6_def r_def)
    have "\<bar>r - x\<bar> \<le> 5 / 10 ^ 7"
      unfolding r_def using False by (intro toFixed6_rounds_nonneg) simp
    then show ?thesis unfolding t .
  qed
  show "\<bar>x\<bar> < \<bar>toFixed6 x\<bar>" if tie: "\<bar>toFixed6 x - x\<bar> = 5 / 10 ^ 7"
  proof (cases "x < 0")
    case True
    define r where "r = real_of_int \<lfloor>- x * 10 ^ 6 + 1 / 2\<rfloor> / 10 ^ 6"
    have t: "toFixed6 x = - r" using True small by (simp add: toFixed6_def r_def)
    have e: "\<bar>- r - x\<bar> = \<bar>r - (- x)\<bar>" by linarith
    have "\<bar>r - (- x)\<bar> = 5 / 10 ^ 7" using tie unfolding t e .
    then have "- x < r"
      unfolding r_def using True by (intro toFixed6_rounds_nonneg) simp_all
    then show ?thesis unfolding t using True by simp
  next
    case False
    define r where "r = real_of_int \<lfloor>x * 10 ^ 6 + 1 / 2\<rfloor> / 10 ^ 6"
    have t: "toFixed6 x = r" using False small by (simp add: toFixed6_def r_def)
    have "\<bar>r - x\<bar> = 5 / 10 ^ 7" using tie unfolding t .
    then have "x < r"
      unfolding r_def using False by (intro toFixed6_rounds_nonneg) simp_all
    then show ?thesis unfolding t using False by simp
  qed
qed

text \<open>
  Claim C2, as the code has it. \<open>isBrushed\<close> returns true when the axis has no selection (or
  its group no node). With a selection \<open>[lo, hi]\<close>, the pair as \<open>brushSelection\<close> returns it,
  the marker \<open>''NaN''\<close> is not brushed, a value without a pixel is not brushed, and any other
  value with pixel \<open>p\<close> is brushed iff \<open>lo \<le> p \<le> hi\<close>, every operand rounded first; the
  bounds are compared as they are given, neither a minimum nor a maximum is taken. The
  rounding of a number below \<open>10\<^sup>2\<^sup>1\<close> in magnitude is a multiple of \<open>10\<^sup>-\<^sup>6\<close>, at most
  half of \<open>10\<^sup>-\<^sup>6\<close> away, and the one of larger magnitude when the number lies halfway
  between two multiples; from \<open>10\<^sup>2\<^sup>1\<close> on it is the number itself.
\<close>

theorem isBrushed_membership:
  "(brushGroup a = Some NoNode \<longrightarrow> isBrushed L a v = Inr True) \<and>
   (\<forall>n. brushGroup a = Some (Node n) \<and> selection n = None \<longrightarrow> isBrushed L a v = Inr True) \<and>
   (\<forall>n lo hi. brushGroup a = Some (Node n) \<and> selection n = Some (lo, hi) \<longrightarrow>
      isBrushed L a (Str ''NaN'') = Inr False \<and>
      (\<forall>p. v \<noteq> Str ''NaN'' \<and> domainToRange L (scale a) v = Some p \<longrightarrow>
         isBrushed L a v = Inr (toFixed6 lo \<le> toFixed6 p \<and> toFixed6 p \<le> toFixed6 hi)) \<and>
      (v \<noteq> Str ''NaN'' \<and> domainToRange L (scale a) v = None \<longrightarrow> isBrushed L a v = Inr False)) \<and>
   (\<forall>x. \<bar>x\<bar> < 10 ^ 21 \<longrightarrow>
      (\<exists>k::int. toFixed6 x = real_of_int k / 10 ^ 6) \<and>
      \<bar>toFixed6 x - x\<bar> \<le> 5 / 10 ^ 7 \<and>
      (\<bar>toFixed6 x - x\<bar> = 5 / 10 ^ 7 \<longrightarrow> \<bar>x\<bar> < \<bar>toFixed6 x\<bar>)) \<and>
   (\<forall>x. \<bar>x\<bar> \<ge> 10 ^ 21 \<longrightarrow> toFixed6 x = x)"
proof -
  have r: "\<forall>x. \<bar>x\<bar> < 10 ^ 21 \<longrightarrow>
      (\<exists>k::int. toFixed6 x = real_of_int k / 10 ^ 6) \<and>
      \<bar>toFixed6 x - x\<bar> \<le> 5 / 10 ^ 7 \<and>
      (\<bar>toFixed6 x - x\<bar> = 5 / 10 ^ 7 \<longrightarrow> \<bar>x\<bar> < \<bar>toFixed6 x\<bar>)"
    using toFixed6_rounds by blast
  have l: "\<forall>x. \<bar>x\<bar> \<ge> 10 ^ 21 \<longrightarrow> toFixed6 x = x" by (simp add: toFixed6_def)
  have m: "(brushGroup a = Some NoNode \<longrightarrow> isBrushed L a v = Inr True) \<and>
   (\<forall>n. brushGroup a = Some (Node n) \<and> selection n = None \<longrightarrow> isBrushed L a v = Inr True) \<and>
   (\<forall>n lo hi. brushGroup a = Some (Node n) \<and> selection n = Some (lo, hi) \<longrightarrow>
      isBrushed L a (Str ''NaN'') = Inr False \<and>
      (\<forall>p. v \<noteq> Str ''NaN'' \<and> domainToRange L (scale a) v = Some p \<longrightarrow>
         isBrushed L a v = Inr (toFixed6 lo \<le> toFixed6 p \<and> toFixed6 p \<le> toFixed6 hi)) \<and>
      (v \<noteq> Str ''NaN'' \<and> domainToRange L (scale a) v = None \<longrightarrow> isBrushed L a v = Inr False))"
    by (auto simp: isBrushed_def)
  show ?thesis using m r l by blast
qed

text \<open>
  The theorem on the axis \<open>Speed\<close> with the extent \<open>[150, 300]\<close>: the values 50 and 90 are
  brushed, 10 is not, the marker is not; without a selection the marker is brushed. The
  value 49.9999999 has the pixel 149.9999997, which rounds to 150, and is brushed.
\<close>

theorem isBrushed_membership_witness:
  "isBrushed example_Lib (speed_axis (Some (150, 300))) (Num (Fin 50)) = Inr True \<and>
   isBrushed example_Lib (speed_axis (Some (150, 300))) (Num (Fin 90)) = Inr True \<and>
   isBrushed example_Lib (speed_axis (Some (150, 300))) (Num (Fin 10)) = Inr False \<and>
   isBrushed example_Lib (speed_axis (Some (150, 300))) (Str ''NaN'') = Inr False \<and>
   isBrushed example_Lib (speed_axis None) (Str ''NaN'') = Inr True \<and>
   isBrushed example_Lib (speed_axis (Some (150, 300))) (Num (Fin (499999999 / 10000000)))
     = Inr True \<and>
   \<bar>toFixed6 (1499999997 / 10000000) - 1499999997 / 10000000\<bar> \<le> 5 / 10 ^ 7"
proof -
  have p: "domainToRange example_Lib (scale (speed_axis (Some (150, 300)))) (Num (Fin 50)) = Some 150"
    "domainToRange example_Lib (scale (speed_axis (Some (150, 300)))) (Num (Fin 90)) = Some 270"
    "domainToRange example_Lib (scale (speed_axis (Some (150, 300)))) (Num (Fin 10)) = Some 30"
    "domainToRange example_Lib (scale (speed_axis (Some (150, 300))))
       (Num (Fin (499999999 / 10000000))) = Some (1499999997 / 10000000)"
    by (simp_all add: example_Lib_def example_domainToRange_def speed_axis_def labelled_axis_def)
  have g: "brushGroup (speed_axis (Some (150, 300))) =
             Some (Node \<lparr>selection = Some (150, 300), upper_y = None, lower_y = None,
                         handle_y = None\<rparr>)"
    "brushGroup (speed_axis None) =
             Some (Node \<lparr>selection = None, upper_y = None, lower_y = None, handle_y = None\<rparr>)"
    by (simp_all add: speed_axis_def labelled_axis_def)
  have t: "toFixed6 150 = 150" "toFixed6 270 = 270" "toFixed6 30 = 30" "toFixed6 300 = 300"
    "toFixed6 (1499999997 / 10000000) = 150"
    by (simp_all add: toFixed6_def)
  have ne: "Num (Fin (499999999 / 10000000)) \<noteq> Str ''NaN''" by simp
  have m: "isBrushed example_Lib (speed_axis (Some (150, 300))) (Num (Fin (499999999 / 10000000)))
      = Inr (toFixed6 150 \<le> toFixed6 (1499999997 / 10000000) \<and>
             toFixed6 (1499999997 / 10000000) \<le> toFixed6 300)"
    by (rule isBrushed_membership [of "speed_axis (Some (150, 300))" example_Lib
          "Num (Fin (499999999 / 10000000))", THEN conjunct2, THEN conjunct2, THEN conjunct1,
          rule_format, THEN conjunct2, THEN conjunct1, rule_format,
          where n = "\<lparr>selection = Some (150, 300), upper_y = None, lower_y = None,
                       handle_y = None\<rparr>"])
       (simp_all only: g p ne simp_thms BrushNode.simps)
  show ?thesis
    using isBrushed_membership [of "speed_axis (Some (150, 300))" example_Lib "Num (Fin 50)"]
      isBrushed_membership [of "speed_axis (Some (150, 300))" example_Lib "Num (Fin 90)"]
      isBrushed_membership [of "speed_axis (Some (150, 300))" example_Lib "Num (Fin 10)"]
      isBrushed_membership [of "speed_axis None" example_Lib "Str ''NaN''"] m
    by (simp add: p(1-3) g t)
qed

text \<open>
  The claim as stated fails for a selection whose first bound is the larger one: with the
  selection \<open>[300, 150]\<close> the value 70, whose pixel 210 lies between the smaller and the
  larger bound, is not brushed.
\<close>

theorem isBrushed_unordered_counterexample:
  "isBrushed example_Lib (speed_axis (Some (300, 150))) (Num (Fin 70)) = Inr False \<and>
   domainToRange example_Lib (scale (speed_axis (Some (300, 150)))) (Num (Fin 70)) = Some 210 \<and>
   toFixed6 (min 300 150) \<le> toFixed6 210 \<and> toFixed6 210 \<le> toFixed6 (max 300 150)"
  by (simp add: isBrushed_def speed_axis_def labelled_axis_def example_Lib_def
      example_domainToRange_def toFixed6_def)

subsection \<open>Clearing the brush\<close>



subsection \<open>The direction of a brush event\<close>




subsection \<open>Throttling\<close>

lemma spaced_snoc:
  "spaced d (ts @ [t]) \<longleftrightarrow> spaced d ts \<and> (ts = [] \<or> last ts + d \<le> t)"
  by (induction d ts rule: spaced.induct) auto

lemma run_snoc: "run L ok (evs @ [e]) st = step L ok e (run L ok evs st)"
  by (simp add: run_def)

lemma run_Cons: "run L ok (e # evs) st = run L ok evs (step L ok e st)"
  by (simp add: run_def)

lemma throttle_inv_mono: "throttle_inv T st \<Longrightarrow> T \<le> T' \<Longrightarrow> throttle_inv T' st"
  by (cases st) (auto simp: throttle_inv_def)

lemma throttle_inv_timerId:
  "timerId a' = timerId a \<Longrightarrow> throttle_inv T (a', l) = throttle_inv T (a, l)"
  by (simp add: throttle_inv_def)

lemma store_selection_keeps:
  "timerId (store_selection sel a) = timerId a"
  "dimension (store_selection sel a) = dimension a"
  "axis_class (store_selection sel a) = axis_class a"
  by (simp_all add: store_selection_def)

lemma on_brush_result:
  assumes "on_brush L a = Inr (d, a')"
  shows "\<exists>g. a' = a\<lparr>brushGroup := g\<rparr>"
proof (cases "brushGroup a")
  case None
  then show ?thesis using assms by (simp add: on_brush_def)
next
  case (Some g)
  show ?thesis
  proof (cases g)
    case NoNode
    then have "a' = a" using assms Some by (simp add: on_brush_def)
    then have "a' = a\<lparr>brushGroup := brushGroup a\<rparr>" by simp
    then show ?thesis by blast
  next
    case (Node n)
    show ?thesis
    proof (cases "selection n")
      case None
      then have "a' = a" using assms Some Node by (simp add: on_brush_def)
      then have "a' = a\<lparr>brushGroup := brushGroup a\<rparr>" by simp
      then show ?thesis by blast
    next
      case (Some brushRange)
      note sel = Some
      show ?thesis
      proof (cases "axis_class a = ObjectiveAxis")
        case True
        obtain direction nextBound where
          o: "objective_direction L (obj (dimension a)) (handle_y n) brushRange
                = (direction, nextBound)"
          by (cases "objective_direction L (obj (dimension a)) (handle_y n) brushRange")
        have "a' = a\<lparr>brushGroup := Some (Node (n\<lparr>handle_y := Some nextBound\<rparr>))\<rparr>"
          using assms \<open>brushGroup a = Some g\<close> Node sel True o by (simp add: on_brush_def)
        then show ?thesis by blast
      next
        case False
        have "a' = a\<lparr>brushGroup := Some (Node (n\<lparr>upper_y := Some (fst brushRange),
                                                  lower_y := Some (snd brushRange)\<rparr>))\<rparr>"
          using assms \<open>brushGroup a = Some g\<close> Node sel False by (simp add: on_brush_def)
        then show ?thesis by blast
      qed
    qed
  qed
qed

lemma on_brush_keeps:
  assumes "on_brush L a = Inr (d, a')"
  shows "timerId a' = timerId a" "dimension a' = dimension a" "axis_class a' = axis_class a"
proof -
  obtain g where "a' = a\<lparr>brushGroup := g\<rparr>" using on_brush_result [OF assms] by blast
  then show "timerId a' = timerId a" "dimension a' = dimension a" "axis_class a' = axis_class a"
    by simp_all
qed

lemma throttled_times_snoc:
  "throttled_times (l\<lparr>calls := calls l @ [(t, Throttled, nm, d)]\<rparr>) = throttled_times l @ [t]"
  "throttled_times (l\<lparr>calls := calls l @ [(t, Direct, nm, d)]\<rparr>) = throttled_times l"
  by (simp_all add: throttled_times_def)

lemma throttled_times_timers:
  "throttled_times (l\<lparr>timers := ts\<rparr>) = throttled_times l"
  "throttled_times (l\<lparr>fresh := n\<rparr>) = throttled_times l"
  by (simp_all add: throttled_times_def)

lemma brush_listener_idle:
  assumes "timerId a = None" "on_brush L a = Inr (d, a')"
  shows "brush_listener L t (a, l) =
           (a'\<lparr>timerId := Some (fresh l)\<rparr>,
            l\<lparr>timers := timers l @ [\<lparr>handle = fresh l, due = t + 300, captured = d\<rparr>],
              fresh := Suc (fresh l)\<rparr>)"
  using assms on_brush_keeps(1) [OF assms(2)]
  by (simp add: brush_listener_def throttleFunction_def)

lemma brush_listener_error:
  assumes "on_brush L a = Inl e"
  shows "brush_listener L t (a, l) = (a, l)"
  using assms by (simp add: brush_listener_def)

lemma brush_listener_pending:
  assumes "timerId a \<noteq> None"
  shows "snd (brush_listener L t (a, l)) = l"
    and "timerId (fst (brush_listener L t (a, l))) = timerId a"
proof -
  have "snd (brush_listener L t (a, l)) = l \<and>
        timerId (fst (brush_listener L t (a, l))) = timerId a"
  proof (cases "on_brush L a")
    case (Inl e)
    then show ?thesis by (simp add: brush_listener_def)
  next
    case (Inr p)
    obtain d a' where p: "p = (d, a')" by (cases p)
    have "timerId a' = timerId a" using Inr p by (intro on_brush_keeps(1)) simp
    then show ?thesis using Inr p assms by (simp add: brush_listener_def throttleFunction_def)
  qed
  then show "snd (brush_listener L t (a, l)) = l"
    and "timerId (fst (brush_listener L t (a, l))) = timerId a" by simp_all
qed

lemma end_listener_keeps:
  "fst (end_listener t (a, l)) = a"
  "timers (snd (end_listener t (a, l))) = timers l"
  "fresh (snd (end_listener t (a, l))) = fresh l"
  "throttled_times (snd (end_listener t (a, l))) = throttled_times l"
  by (auto simp: end_listener_def throttled_times_def split: option.splits BrushGroup.splits)

lemma tick_due:
  assumes "timers l = [tm]" "due tm \<le> t"
  shows "run_timers ok t (a, l) =
           (if ok t (name (dimension a)) (captured tm) then a\<lparr>timerId := None\<rparr> else a,
            l\<lparr>timers := [], calls := calls l @ [(t, Throttled, name (dimension a), captured tm)]\<rparr>)"
  using assms by (simp add: run_timers_def timer_callback_def Let_def)

lemma tick_not_due:
  assumes "timers l = [tm]" "\<not> due tm \<le> t"
  shows "run_timers ok t (a, l) = (a, l)"
  using assms by (simp add: run_timers_def)

lemma tick_idle:
  assumes "timers l = []"
  shows "run_timers ok t (a, l) = (a, l)"
  using assms by (simp add: run_timers_def)

lemma throttle_inv_brush:
  assumes "throttle_inv T (a, l)" "T \<le> t"
  shows "throttle_inv t (brush_listener L t (a, l))"
proof (cases "on_brush L a")
  case (Inl e)
  have "throttle_inv t (a, l)" using assms by (rule throttle_inv_mono)
  then show ?thesis using Inl by (simp add: brush_listener_error)
next
  case (Inr p)
  obtain d a' where p: "p = (d, a')" by (cases p)
  have k: "timerId a' = timerId a" using Inr p by (intro on_brush_keeps(1)) simp
  show ?thesis
  proof (cases "timerId a")
    case None
    have e: "timers l = []" using assms(1) None by (simp add: throttle_inv_def)
    have sp: "spaced 300 (throttled_times l)"
      and la: "throttled_times l = [] \<or> last (throttled_times l) \<le> T"
      using assms(1) by (simp_all add: throttle_inv_def)
    have b: "brush_listener L t (a, l) =
           (a'\<lparr>timerId := Some (fresh l)\<rparr>,
            l\<lparr>timers := [\<lparr>handle = fresh l, due = t + 300, captured = d\<rparr>],
              fresh := Suc (fresh l)\<rparr>)"
      using None Inr p e brush_listener_idle [of a L d a' t l] by simp
    have tt: "throttled_times
                (l\<lparr>timers := [\<lparr>handle = fresh l, due = t + 300, captured = d\<rparr>],
                   fresh := Suc (fresh l)\<rparr>) = throttled_times l"
      by (simp add: throttled_times_def)
    have la': "throttled_times l = [] \<or> last (throttled_times l) \<le> t"
      using la assms(2) by auto
    then have "throttled_times l = [] \<or> last (throttled_times l) + 300 \<le> t + 300" by auto
    then show ?thesis
      unfolding b throttle_inv_def prod.case tt using sp la' by simp
  next
    case (Some h)
    have "brush_listener L t (a, l) = (a', l)"
      using Some Inr p k by (simp add: brush_listener_def throttleFunction_def)
    moreover have "throttle_inv t (a, l)" using assms by (rule throttle_inv_mono)
    moreover have "throttle_inv t (a', l) = throttle_inv t (a, l)"
      using k by (rule throttle_inv_timerId)
    ultimately show ?thesis by simp
  qed
qed

lemma throttle_inv_end:
  assumes "throttle_inv T (a, l)" "T \<le> t"
  shows "throttle_inv t (end_listener t (a, l))"
proof -
  obtain l' where e: "end_listener t (a, l) = (a, l')"
    using end_listener_keeps(1) [of t a l] by (cases "end_listener t (a, l)") simp
  have k: "timers l' = timers l" "throttled_times l' = throttled_times l"
    using end_listener_keeps(2,4) [of t a l] e by simp_all
  have "throttle_inv t (a, l') = throttle_inv t (a, l)"
    unfolding throttle_inv_def prod.case k ..
  moreover have "throttle_inv t (a, l)" using assms by (rule throttle_inv_mono)
  ultimately show ?thesis using e by simp
qed

lemma throttle_inv_tick:
  assumes "throttle_inv T (a, l)" "T \<le> t"
  shows "throttle_inv t (run_timers ok t (a, l))"
proof (cases "timers l")
  case Nil
  have "throttle_inv t (a, l)" using assms by (rule throttle_inv_mono)
  then show ?thesis using Nil by (simp add: tick_idle)
next
  case (Cons tm ts)
  then obtain h where tm: "timers l = [tm]" "timerId a = Some h" "handle tm = h"
      "throttled_times l = [] \<or> last (throttled_times l) + 300 \<le> due tm"
    using assms(1) by (cases "timerId a") (auto simp: throttle_inv_def split: list.splits)
  show ?thesis
  proof (cases "due tm \<le> t")
    case True
    have sp: "spaced 300 (throttled_times l)" using assms(1) by (simp add: throttle_inv_def)
    have "spaced 300 (throttled_times l @ [t])"
    proof (cases "throttled_times l = []")
      case True
      then show ?thesis by simp
    next
      case False
      then have "last (throttled_times l) + 300 \<le> t" using tm(4) True by simp
      then show ?thesis using sp by (simp add: spaced_snoc)
    qed
    then show ?thesis
      using tm(1,2) True by (simp add: tick_due throttle_inv_def throttled_times_def)
  next
    case False
    have "throttle_inv t (a, l)" using assms by (rule throttle_inv_mono)
    then show ?thesis using False tm(1) by (simp add: tick_not_due)
  qed
qed

lemma throttle_inv_step:
  assumes "throttle_inv T st" "T \<le> time_of e"
  shows "throttle_inv (time_of e) (step L ok e st)"
proof (cases st)
  case (Pair a l)
  show ?thesis
  proof (cases e)
    case (BrushEvent t sel)
    have "throttle_inv T (store_selection sel a, l) = throttle_inv T (a, l)"
      by (rule throttle_inv_timerId) (rule store_selection_keeps)
    then have "throttle_inv T (store_selection sel a, l)" using assms(1) Pair by simp
    then show ?thesis using assms(2) Pair BrushEvent by (simp add: throttle_inv_brush)
  next
    case (EndEvent t sel)
    have "throttle_inv T (store_selection sel a, l) = throttle_inv T (a, l)"
      by (rule throttle_inv_timerId) (rule store_selection_keeps)
    then have "throttle_inv T (store_selection sel a, l)" using assms(1) Pair by simp
    then show ?thesis using assms(2) Pair EndEvent by (simp add: throttle_inv_end)
  next
    case (Tick t)
    then show ?thesis using assms Pair by (simp add: throttle_inv_tick)
  qed
qed

lemma throttle_inv_run:
  assumes "sorted (map time_of evs)" "throttle_inv T0 st0" "\<forall>e\<in>set evs. T0 \<le> time_of e"
  shows "throttle_inv (if evs = [] then T0 else time_of (last evs)) (run L ok evs st0)"
  using assms
proof (induction evs rule: rev_induct)
  case Nil
  then show ?case by (simp add: run_def)
next
  case (snoc e evs)
  have s: "sorted (map time_of evs)" and le: "\<forall>x\<in>set evs. time_of x \<le> time_of e"
    using snoc.prems(1) by (auto simp: sorted_append)
  have "throttle_inv (if evs = [] then T0 else time_of (last evs)) (run L ok evs st0)"
    using snoc.IH s snoc.prems by simp
  moreover have "(if evs = [] then T0 else time_of (last evs)) \<le> time_of e"
    using le snoc.prems(3) by auto
  ultimately have "throttle_inv (time_of e) (step L ok e (run L ok evs st0))"
    by (rule throttle_inv_step)
  then show ?case by (simp add: run_snoc)
qed

text \<open>A throttle whose callback has thrown stays blocked: no event brings a throttled call.\<close>

lemma blocked_step:
  assumes "timerId a \<noteq> None" "timers l = []"
  shows "timerId (fst (step L ok e (a, l))) \<noteq> None \<and> timers (snd (step L ok e (a, l))) = [] \<and>
         throttled_times (snd (step L ok e (a, l))) = throttled_times l"
proof (cases e)
  case (BrushEvent t sel)
  have "timerId (store_selection sel a) \<noteq> None" using assms(1) by (simp add: store_selection_keeps)
  then show ?thesis
    using assms BrushEvent
      brush_listener_pending [of "store_selection sel a" L t l]
    by (simp add: store_selection_keeps)
next
  case (EndEvent t sel)
  then show ?thesis
    using assms by (simp add: end_listener_keeps store_selection_keeps)
next
  case (Tick t)
  then show ?thesis using assms by (simp add: tick_idle)
qed

lemma blocked_run:
  assumes "timerId (fst st) \<noteq> None" "timers (snd st) = []"
  shows "throttled_times (snd (run L ok evs st)) = throttled_times (snd st)"
  using assms
proof (induction evs arbitrary: st)
  case Nil
  then show ?case by (simp add: run_def)
next
  case (Cons e evs)
  obtain a l where st: "st = (a, l)" by (cases st)
  have b: "timerId (fst (step L ok e (a, l))) \<noteq> None \<and> timers (snd (step L ok e (a, l))) = [] \<and>
         throttled_times (snd (step L ok e (a, l))) = throttled_times l"
    using Cons.prems st by (intro blocked_step) simp_all
  then have "throttled_times (snd (run L ok evs (step L ok e (a, l)))) =
             throttled_times (snd (step L ok e (a, l)))"
    by (intro Cons.IH) simp_all
  then show ?case using b st by (simp add: run_Cons)
qed

text \<open>
  Claim C4, as the code has it. From an idle axis and any sequence of brush events, end
  events and turns of the event loop, in the order of their times: at most one timer is
  pending, and the calls of the handler that come from the throttle are at least 300 ms
  apart. A brush event that finds \<open>timerId\<close> unset schedules one timer, due 300 ms later and
  holding the direction the listener computed for this event, and calls nothing; a brush
  event that finds it set leaves the event loop as it is. When the pending timer is due,
  the event loop calls the handler once, with the direction the timer holds; \<open>timerId\<close> is
  unset if the handler returns, and if the handler throws it stays set, no timer is left,
  and whatever follows brings no throttled call any more. An end event that finds the
  selection removed, on an axis that is not an objective axis, calls the handler at once
  with EXTEND, whatever the state of the throttle; any other end event calls nothing, and
  no end event touches the timers.
\<close>

theorem throttle_single_delayed_call:
  assumes "timerId a0 = None" and "timers l0 = []" and "calls l0 = []"
      and "sorted (map time_of evs)"
  shows "let st = run L ok evs (a0, l0) in
     length (timers (snd st)) \<le> 1 \<and>
     spaced 300 (throttled_times (snd st)) \<and>
     (timerId (fst st) = None \<longrightarrow>
        timers (snd st) = [] \<and>
        (\<forall>dir a'. on_brush L (store_selection sel (fst st)) = Inr (dir, a') \<longrightarrow>
           step L ok (BrushEvent t sel) st =
             (a'\<lparr>timerId := Some (fresh (snd st))\<rparr>,
              (snd st)\<lparr>timers := [\<lparr>handle = fresh (snd st), due = t + 300, captured = dir\<rparr>],
                       fresh := Suc (fresh (snd st))\<rparr>))) \<and>
     (timerId (fst st) \<noteq> None \<longrightarrow>
        snd (step L ok (BrushEvent t sel) st) = snd st \<and>
        timerId (fst (step L ok (BrushEvent t sel) st)) = timerId (fst st)) \<and>
     (\<forall>tm. timers (snd st) = [tm] \<longrightarrow>
        (due tm \<le> t \<longrightarrow>
           calls (snd (step L ok (Tick t) st)) =
             calls (snd st) @ [(t, Throttled, name (dimension (fst st)), captured tm)] \<and>
           timers (snd (step L ok (Tick t) st)) = [] \<and>
           timerId (fst (step L ok (Tick t) st)) =
             (if ok t (name (dimension (fst st))) (captured tm) then None
              else timerId (fst st))) \<and>
        (\<not> due tm \<le> t \<longrightarrow> step L ok (Tick t) st = st)) \<and>
     (timers (snd st) = [] \<longrightarrow> step L ok (Tick t) st = st) \<and>
     (timerId (fst st) \<noteq> None \<and> timers (snd st) = [] \<longrightarrow>
        throttled_times (snd (run L ok evs' st)) = throttled_times (snd st)) \<and>
     (\<forall>n. axis_class (fst st) \<noteq> ObjectiveAxis \<and> brushGroup (fst st) = Some (Node n) \<longrightarrow>
        calls (snd (step L ok (EndEvent t None) st)) =
          calls (snd st) @ [(t, Direct, name (dimension (fst st)), Some EXTEND)]) \<and>
     (sel \<noteq> None \<or> axis_class (fst st) = ObjectiveAxis \<longrightarrow>
        calls (snd (step L ok (EndEvent t sel) st)) = calls (snd st)) \<and>
     timers (snd (step L ok (EndEvent t sel) st)) = timers (snd st) \<and>
     timerId (fst (step L ok (EndEvent t sel) st)) = timerId (fst st)"
proof -
  obtain a l where st: "run L ok evs (a0, l0) = (a, l)" by (cases "run L ok evs (a0, l0)")
  have "throttle_inv 0 (a0, l0)" using assms by (simp add: throttle_inv_def throttled_times_def)
  then have "throttle_inv (if evs = [] then 0 else time_of (last evs)) (run L ok evs (a0, l0))"
    using assms(4) by (intro throttle_inv_run) auto
  then have inv: "throttle_inv (if evs = [] then 0 else time_of (last evs)) (a, l)"
    by (simp add: st)
  have c1: "length (timers l) \<le> 1"
    using inv by (cases "timerId a") (auto simp: throttle_inv_def split: list.splits)
  have c2: "spaced 300 (throttled_times l)" using inv by (simp add: throttle_inv_def)
  have c3: "timerId a = None \<longrightarrow>
        timers l = [] \<and>
        (\<forall>dir a'. on_brush L (store_selection sel a) = Inr (dir, a') \<longrightarrow>
           step L ok (BrushEvent t sel) (a, l) =
             (a'\<lparr>timerId := Some (fresh l)\<rparr>,
              l\<lparr>timers := [\<lparr>handle = fresh l, due = t + 300, captured = dir\<rparr>],
                fresh := Suc (fresh l)\<rparr>))"
  proof
    assume n: "timerId a = None"
    then have e: "timers l = []" using inv by (simp add: throttle_inv_def)
    show "timers l = [] \<and>
        (\<forall>dir a'. on_brush L (store_selection sel a) = Inr (dir, a') \<longrightarrow>
           step L ok (BrushEvent t sel) (a, l) =
             (a'\<lparr>timerId := Some (fresh l)\<rparr>,
              l\<lparr>timers := [\<lparr>handle = fresh l, due = t + 300, captured = dir\<rparr>],
                fresh := Suc (fresh l)\<rparr>))"
      using e n by (simp add: brush_listener_idle store_selection_keeps)
  qed
  have c4: "timerId a \<noteq> None \<longrightarrow>
        snd (step L ok (BrushEvent t sel) (a, l)) = l \<and>
        timerId (fst (step L ok (BrushEvent t sel) (a, l))) = timerId a"
    using brush_listener_pending [of "store_selection sel a" L t l]
    by (simp add: store_selection_keeps)
  have c5: "\<forall>tm. timers l = [tm] \<longrightarrow>
        (due tm \<le> t \<longrightarrow>
           calls (snd (step L ok (Tick t) (a, l))) =
             calls l @ [(t, Throttled, name (dimension a), captured tm)] \<and>
           timers (snd (step L ok (Tick t) (a, l))) = [] \<and>
           timerId (fst (step L ok (Tick t) (a, l))) =
             (if ok t (name (dimension a)) (captured tm) then None else timerId a)) \<and>
        (\<not> due tm \<le> t \<longrightarrow> step L ok (Tick t) (a, l) = (a, l))"
    by (simp add: tick_due tick_not_due)
  have c6: "timers l = [] \<longrightarrow> step L ok (Tick t) (a, l) = (a, l)"
    by (simp add: tick_idle)
  have c7: "timerId a \<noteq> None \<and> timers l = [] \<longrightarrow>
        throttled_times (snd (run L ok evs' (a, l))) = throttled_times l"
    using blocked_run [of "(a, l)" L ok evs'] by simp
  have c8: "\<forall>n. axis_class a \<noteq> ObjectiveAxis \<and> brushGroup a = Some (Node n) \<longrightarrow>
        calls (snd (step L ok (EndEvent t None) (a, l))) =
          calls l @ [(t, Direct, name (dimension a), Some EXTEND)]"
    by (simp add: end_listener_def store_selection_def brush_move_def)
  have c9: "sel \<noteq> None \<or> axis_class a = ObjectiveAxis \<longrightarrow>
        calls (snd (step L ok (EndEvent t sel) (a, l))) = calls l"
    by (auto simp: end_listener_def store_selection_def brush_move_def
        split: option.splits BrushGroup.splits)
  have c10: "timers (snd (step L ok (EndEvent t sel) (a, l))) = timers l"
    "timerId (fst (step L ok (EndEvent t sel) (a, l))) = timerId a"
    by (simp_all add: end_listener_keeps store_selection_keeps)
  show ?thesis
    unfolding st Let_def fst_conv snd_conv
    using c1 c2 c3 c4 c5 c6 c7 c8 c9 c10 by blast
qed

text \<open>
  The theorem on the axis \<open>Speed\<close>, with a handler that returns: the second brush event is
  dropped, the call at 300 has the direction of the first, and the end event that finds the
  selection removed brings a call of its own. With a handler that throws at 300 the
  throttle stays blocked, and the timer that the later brush event would have scheduled
  never runs.
\<close>

theorem throttle_single_delayed_call_witness:
  "calls (snd (run example_Lib (\<lambda>t nm d. True)
      [BrushEvent 0 (Some (100, 200)), BrushEvent 100 (Some (90, 210)), Tick 300,
       BrushEvent 350 (Some (90, 210)), EndEvent 400 None, Tick 700]
      (speed_axis None, idle_loop)))
     = [(300, Throttled, ''Speed'', Some SHRINK), (400, Direct, ''Speed'', Some EXTEND),
        (700, Throttled, ''Speed'', None)] \<and>
   length (timers (snd (run example_Lib (\<lambda>t nm d. True)
      [BrushEvent 0 (Some (100, 200)), BrushEvent 100 (Some (90, 210)), Tick 300,
       BrushEvent 350 (Some (90, 210)), EndEvent 400 None, Tick 700]
      (speed_axis None, idle_loop)))) \<le> 1 \<and>
   spaced 300 [300, 700] \<and>
   calls (snd (run example_Lib (\<lambda>t nm d. t \<noteq> 300)
      [BrushEvent 0 (Some (100, 200)), BrushEvent 100 (Some (90, 210)), Tick 300,
       BrushEvent 350 (Some (90, 210)), EndEvent 400 None, Tick 700]
      (speed_axis None, idle_loop)))
     = [(300, Throttled, ''Speed'', Some SHRINK), (400, Direct, ''Speed'', Some EXTEND)]"
proof -
  have i: "timerId (speed_axis None) = None" "timers idle_loop = []" "calls idle_loop = []"
    by (simp_all add: speed_axis_def labelled_axis_def idle_loop_def)
  have s: "sorted (map time_of
      [BrushEvent 0 (Some (100, 200)), BrushEvent 100 (Some (90, 210)), Tick 300,
       BrushEvent 350 (Some (90, 210)), EndEvent 400 None, Tick 700])"
    by simp
  have c: "calls (snd (run example_Lib (\<lambda>t nm d. True)
      [BrushEvent 0 (Some (100, 200)), BrushEvent 100 (Some (90, 210)), Tick 300,
       BrushEvent 350 (Some (90, 210)), EndEvent 400 None, Tick 700]
      (speed_axis None, idle_loop)))
     = [(300, Throttled, ''Speed'', Some SHRINK), (400, Direct, ''Speed'', Some EXTEND),
        (700, Throttled, ''Speed'', None)]"
    "calls (snd (run example_Lib (\<lambda>t nm d. t \<noteq> 300)
      [BrushEvent 0 (Some (100, 200)), BrushEvent 100 (Some (90, 210)), Tick 300,
       BrushEvent 350 (Some (90, 210)), EndEvent 400 None, Tick 700]
      (speed_axis None, idle_loop)))
     = [(300, Throttled, ''Speed'', Some SHRINK), (400, Direct, ''Speed'', Some EXTEND)]"
    by (simp_all add: run_def brush_listener_def end_listener_def store_selection_def
        brush_move_def on_brush_def brush_direction_def Number_attr_def number_is_null_def
        throttleFunction_def run_timers_def timer_callback_def speed_axis_def
        labelled_axis_def idle_loop_def speed_def example_Lib_def)
  show ?thesis
    using throttle_single_delayed_call [OF i s, of example_Lib "\<lambda>t nm d. True" None 0 "[]"] c
    by (simp add: Let_def throttled_times_def)
qed

text \<open>
  The claim as stated fails three times. The first brush event calls nothing at once; the
  call that follows has the direction of the first event, SHRINK, not that of the latest,
  which the listener computed as EXTEND; and the end event brings a second call 10 ms
  after the first.
\<close>

theorem throttle_counterexample:
  "calls (snd (run example_Lib (\<lambda>t nm d. True) [BrushEvent 0 (Some (100, 200))]
                   (speed_axis None, idle_loop))) = [] \<and>
   brushGroup (fst (run example_Lib (\<lambda>t nm d. True) [BrushEvent 0 (Some (100, 200))]
                   (speed_axis None, idle_loop)))
     = brushGroup (labelled_axis (Some (100, 200)) (Some 100) (Some 200)) \<and>
   on_brush example_Lib (labelled_axis (Some (90, 210)) (Some 100) (Some 200))
     = Inr (Some EXTEND, labelled_axis (Some (90, 210)) (Some 90) (Some 210)) \<and>
   calls (snd (run example_Lib (\<lambda>t nm d. True)
                   [BrushEvent 0 (Some (100, 200)), BrushEvent 100 (Some (90, 210)), Tick 300,
                    EndEvent 310 None]
                   (speed_axis None, idle_loop)))
     = [(300, Throttled, ''Speed'', Some SHRINK), (310, Direct, ''Speed'', Some EXTEND)]"
  by (simp add: run_def brush_listener_def end_listener_def store_selection_def
      brush_move_def on_brush_def brush_direction_def Number_attr_def number_is_null_def
      throttleFunction_def run_timers_def timer_callback_def speed_axis_def
      labelled_axis_def idle_loop_def speed_def example_Lib_def)


section \<open>Properties of the line brush\<close>

text \<open>
  Claim C8, as the code has it. The membership test is true for every path on a new brush
  and on any brush that is not visible; \<open>cancel\<close> resets \<open>started\<close>, \<open>ended\<close> and \<open>visible\<close>,
  so the test is true after it, and it hides the path of the brush, but it keeps both
  endpoints, and the hidden path is still drawn between them. From an idle brush,
  \<open>process p1\<close> then \<open>process p2\<close> commit the two endpoints and draw the segment, and for an
  item with a path the test is true exactly when the library finds an intersection of the
  item's path and the segment.
\<close>

theorem lineBrush_membership:
  "brushed L (new_lineBrush L) pathDescr \<and>
   (\<not> visible b \<longrightarrow> brushed L b pathDescr) \<and>
   \<not> started (cancel L b) \<and> \<not> ended (cancel L b) \<and> \<not> visible (cancel L b) \<and>
   brushed L (cancel L b) pathDescr \<and>
   start_point (cancel L b) = start_point b \<and> end_point (cancel L b) = end_point b \<and>
   \<not> linePath_display (cancel L b) \<and>
   linePath_d (cancel L b) = lineGenerator L [start_point b, end_point b] \<and>
   (\<not> started b \<longrightarrow>
      started (process L p2 (process L p1 b)) \<and> ended (process L p2 (process L p1 b)) \<and>
      visible (process L p2 (process L p1 b)) \<and>
      start_point (process L p2 (process L p1 b)) = p1 \<and>
      end_point (process L p2 (process L p1 b)) = p2 \<and>
      linePath_d (process L p2 (process L p1 b)) = lineGenerator L [p1, p2] \<and>
      (\<forall>pd ld. pathDescr = Some pd \<and> pd \<noteq> [] \<and> lineGenerator L [p1, p2] = Some ld \<and> ld \<noteq> [] \<longrightarrow>
         brushed L (process L p2 (process L p1 b)) pathDescr = (pathIntersection L pd ld \<noteq> [])))"
  by (auto simp: brushed_def getPath_def cancel_def process_def render_brush_def brushCallback_def
      new_lineBrush_def)

text \<open>
  The theorem on the segment from \<open>(10, 20)\<close> to \<open>(200, 100)\<close>: a crossing path is brushed,
  a disjoint one is not, and after \<open>cancel\<close> the disjoint one is brushed again, the two
  endpoints are still there and the path is hidden.
\<close>

theorem lineBrush_membership_witness:
  "brushed example_Lib (process example_Lib (200, 100) (process example_Lib (10, 20) (new_lineBrush example_Lib)))
     (Some ''crossing'') \<and>
   \<not> brushed example_Lib (process example_Lib (200, 100) (process example_Lib (10, 20) (new_lineBrush example_Lib)))
     (Some ''disjoint'') \<and>
   brushed example_Lib
     (cancel example_Lib (process example_Lib (200, 100) (process example_Lib (10, 20) (new_lineBrush example_Lib))))
     (Some ''disjoint'') \<and>
   start_point
     (cancel example_Lib (process example_Lib (200, 100) (process example_Lib (10, 20) (new_lineBrush example_Lib))))
     = (10, 20) \<and>
   end_point
     (cancel example_Lib (process example_Lib (200, 100) (process example_Lib (10, 20) (new_lineBrush example_Lib))))
     = (200, 100) \<and>
   \<not> linePath_display
     (cancel example_Lib (process example_Lib (200, 100) (process example_Lib (10, 20) (new_lineBrush example_Lib))))"
proof -
  have i: "\<not> started (new_lineBrush example_Lib)" by (simp add: new_lineBrush_def)
  have g: "lineGenerator example_Lib [(10, 20), (200, 100)] = Some ''M''"
    by (simp add: example_Lib_def)
  have x: "pathIntersection example_Lib ''crossing'' ''M'' \<noteq> []"
    "pathIntersection example_Lib ''disjoint'' ''M'' = []"
    by (simp_all add: example_Lib_def)
  show ?thesis
    using lineBrush_membership [of example_Lib "Some ''crossing''" "new_lineBrush example_Lib" "(200, 100)" "(10, 20)"]
      lineBrush_membership [of example_Lib "Some ''disjoint''" "new_lineBrush example_Lib" "(200, 100)" "(10, 20)"]
      lineBrush_membership [of example_Lib "Some ''disjoint''"
        "process example_Lib (200, 100) (process example_Lib (10, 20) (new_lineBrush example_Lib))"]
      i g x
    by simp
qed

text \<open>
  The claim as stated fails in that \<open>cancel\<close> clears no endpoint: both points keep the
  coordinates of the cancelled brush, and the hidden path is the segment between them.
\<close>

theorem cancel_keeps_endpoints_counterexample:
  "start_point (cancel example_Lib
      (process example_Lib (200, 100) (process example_Lib (10, 20) (new_lineBrush example_Lib))))
     = (10, 20) \<and>
   end_point (cancel example_Lib
      (process example_Lib (200, 100) (process example_Lib (10, 20) (new_lineBrush example_Lib))))
     = (200, 100) \<and>
   linePath_d (cancel example_Lib
      (process example_Lib (200, 100) (process example_Lib (10, 20) (new_lineBrush example_Lib))))
     = Some ''M'' \<and>
   \<not> linePath_display (cancel example_Lib
      (process example_Lib (200, 100) (process example_Lib (10, 20) (new_lineBrush example_Lib))))"
  by (simp add: cancel_def process_def render_brush_def brushCallback_def new_lineBrush_def
      example_Lib_def)

section \<open>Properties of the chart\<close>

subsection \<open>The selection pass\<close>

lemma isBrushed_registered:
  "brushGroup a = Some g \<Longrightarrow> \<exists>b. isBrushed L a v = Inr b"
  by (cases g) (auto simp: isBrushed_def Let_def split: option.splits)

lemma every_isBrushed_registered:
  assumes "\<forall>a\<in>set as. brushGroup a \<noteq> None"
  shows "every_isBrushed L as item =
           Inr (list_all (\<lambda>a. isBrushed L a (get item (name (dimension a))) = Inr True) as)"
  using assms
proof (induction as)
  case Nil
  then show ?case by simp
next
  case (Cons a as)
  then obtain g where "brushGroup a = Some g" by auto
  then obtain b where "isBrushed L a (get item (name (dimension a))) = Inr b"
    using isBrushed_registered by blast
  then show ?case using Cons by simp
qed

lemma isBrushed_chart_registered:
  assumes "\<forall>a\<in>set (map snd (axes s)). brushGroup a \<noteq> None"
  shows "isBrushed_chart L s node = Inr (selected_spec L s node)"
  by (simp add: isBrushed_chart_def selected_spec_def every_isBrushed_registered [OF assms])

lemma brushed_class_same: "brushed_class node = b \<Longrightarrow> node\<lparr>brushed_class := b\<rparr> = node"
  by (cases node) simp

lemma brush_polyline_registered:
  assumes "\<forall>a\<in>set (map snd (axes s)). brushGroup a \<noteq> None"
      and "dir = Some EXTEND \<Longrightarrow> brushed_class node \<Longrightarrow> selected_spec L s node"
      and "dir = Some SHRINK \<Longrightarrow> selected_spec L s node \<Longrightarrow> brushed_class node"
  shows "brush_polyline L s dir node = Inr (node\<lparr>brushed_class := selected_spec L s node\<rparr>)"
proof (cases dir)
  case None
  then show ?thesis
    by (simp add: brush_polyline_def isBrushed_chart_registered [OF assms(1)])
next
  case (Some d)
  show ?thesis
  proof (cases d)
    case EXTEND
    show ?thesis
    proof (cases "brushed_class node")
      case True
      then have "selected_spec L s node" using assms(2) Some EXTEND by simp
      then have "node\<lparr>brushed_class := selected_spec L s node\<rparr> = node"
        using True by (simp add: brushed_class_same)
      then show ?thesis using True Some EXTEND by (simp add: brush_polyline_def)
    next
      case False
      show ?thesis
      proof (cases "selected_spec L s node")
        case True
        then show ?thesis
          using False Some EXTEND
          by (simp add: brush_polyline_def isBrushed_chart_registered [OF assms(1)])
      next
        case sel: False
        then have "node\<lparr>brushed_class := selected_spec L s node\<rparr> = node"
          using False by (simp add: brushed_class_same)
        then show ?thesis
          using sel False Some EXTEND
          by (simp add: brush_polyline_def isBrushed_chart_registered [OF assms(1)])
      qed
    qed
  next
    case SHRINK
    show ?thesis
    proof (cases "brushed_class node")
      case False
      then have sel: "\<not> selected_spec L s node" using assms(3) Some SHRINK by auto
      then have "node\<lparr>brushed_class := selected_spec L s node\<rparr> = node"
        using False by (simp add: brushed_class_same)
      then show ?thesis using False Some SHRINK by (simp add: brush_polyline_def)
    next
      case True
      show ?thesis
      proof (cases "selected_spec L s node")
        case sel: True
        then have "node\<lparr>brushed_class := selected_spec L s node\<rparr> = node"
          using True by (simp add: brushed_class_same)
        then show ?thesis
          using sel True Some SHRINK
          by (simp add: brush_polyline_def isBrushed_chart_registered [OF assms(1)])
      next
        case False
        then show ?thesis
          using True Some SHRINK
          by (simp add: brush_polyline_def isBrushed_chart_registered [OF assms(1)])
      qed
    qed
  qed
qed

lemma brush_each_registered:
  assumes "\<forall>a\<in>set (map snd (axes s)). brushGroup a \<noteq> None"
      and "dir = Some EXTEND \<longrightarrow> (\<forall>node\<in>set nodes. brushed_class node \<longrightarrow> selected_spec L s node)"
      and "dir = Some SHRINK \<longrightarrow> (\<forall>node\<in>set nodes. selected_spec L s node \<longrightarrow> brushed_class node)"
  shows "brush_each L s dir nodes =
           Inr (map (\<lambda>node. node\<lparr>brushed_class := selected_spec L s node\<rparr>) nodes)"
  using assms(2,3)
proof (induction nodes)
  case Nil
  then show ?case by simp
next
  case (Cons node nodes)
  have "brush_polyline L s dir node = Inr (node\<lparr>brushed_class := selected_spec L s node\<rparr>)"
    using Cons.prems by (intro brush_polyline_registered [OF assms(1)]) simp_all
  moreover have "brush_each L s dir nodes =
           Inr (map (\<lambda>node. node\<lparr>brushed_class := selected_spec L s node\<rparr>) nodes)"
    using Cons by simp
  ultimately show ?case by simp
qed

lemma list_all_update_I:
  "list_all P (map snd axs) \<Longrightarrow> P a' \<Longrightarrow> list_all P (map snd (AList.update k a' axs))"
  by (induction axs) auto



lemma list_all_update_D:
  assumes "list_all P (map snd (AList.update k a' axs))" and "map_of axs k = Some a"
      and "P a' \<Longrightarrow> P a"
  shows "list_all P (map snd axs)"
  using assms(1,2)
proof (induction axs)
  case Nil
  then show ?case by simp
next
  case (Cons x axs)
  obtain k1 v1 where x: "x = (k1, v1)" by (cases x)
  show ?case
  proof (cases "k1 = k")
    case True
    then have "v1 = a" using Cons.prems(2) x by simp
    moreover have "P a'" "list_all P (map snd axs)" using Cons.prems(1) x True by simp_all
    ultimately show ?thesis using assms(3) x by simp
  next
    case False
    then have "P v1" "list_all P (map snd (AList.update k a' axs))" "map_of axs k = Some a"
      using Cons.prems x by simp_all
    then show ?thesis using Cons.IH x by simp
  qed
qed

text \<open>
  Claim C1. Let the axes be registered, and let the chart \<open>s\<close> differ from \<open>s0\<close> by the
  brush of one axis (\<open>a\<close> before, \<open>a'\<close> after). If every polyline was marked as the
  conjunction in \<open>s0\<close> has it, and the hint is accurate on the items (under EXTEND every item
  the changed brush selected is still selected by it, under SHRINK it selects no new
  item), then after \<open>brush(dir)\<close> every polyline is marked exactly as the conjunction in \<open>s\<close>
  has it: all axes and the line brush. Without a hint this holds for every chart.
\<close>

theorem brush_pass_restores_conjunction:
  assumes registered: "\<forall>a\<in>set (map snd (axes s)). brushGroup a \<noteq> None"
      and same: "polylines s = polylines s0" "lineBrush s = lineBrush s0"
      and change: "dir \<noteq> None \<longrightarrow>
                   axes s = AList.update k a' (axes s0) \<and> map_of (axes s0) k = Some a"
      and before: "dir \<noteq> None \<longrightarrow>
                   (\<forall>node\<in>set (polylines s0). brushed_class node = selected_spec L s0 node)"
      and extend: "dir = Some EXTEND \<longrightarrow>
                   (\<forall>node\<in>set (polylines s0).
                      isBrushed L a (get (datum node) (name (dimension a))) = Inr True \<longrightarrow>
                      isBrushed L a' (get (datum node) (name (dimension a'))) = Inr True)"
      and shrink: "dir = Some SHRINK \<longrightarrow>
                   (\<forall>node\<in>set (polylines s0).
                      isBrushed L a' (get (datum node) (name (dimension a'))) = Inr True \<longrightarrow>
                      isBrushed L a (get (datum node) (name (dimension a))) = Inr True)"
  shows "brush L dir s =
           Inr (s\<lparr>polylines :=
                    map (\<lambda>node. node\<lparr>brushed_class := selected_spec L s node\<rparr>) (polylines s)\<rparr>)"
proof -
  note p = same(1) and lb = same(2)
  have e: "dir = Some EXTEND \<longrightarrow>
      (\<forall>node\<in>set (polylines s). brushed_class node \<longrightarrow> selected_spec L s node)"
  proof (intro impI ballI)
    fix node
    assume d: "dir = Some EXTEND" and n: "node \<in> set (polylines s)" and b: "brushed_class node"
    let ?P = "\<lambda>a. isBrushed L a (get (datum node) (name (dimension a))) = Inr True"
    have ax: "axes s = AList.update k a' (axes s0)" and m: "map_of (axes s0) k = Some a"
      using change d by simp_all
    have a_in: "a \<in> set (map snd (axes s0))"
      using m by (force dest: map_of_SomeD)
    have s0: "selected_spec L s0 node" using before d n b p by auto
    then have all: "list_all ?P (map snd (axes s0))" by (simp add: selected_spec_def)
    then have "?P a" using a_in by (auto simp: list_all_iff)
    then have "?P a'" using extend d n p by auto
    then have "list_all ?P (map snd (axes s))"
      using all by (simp add: ax list_all_update_I)
    then show "selected_spec L s node" using s0 by (simp add: selected_spec_def lb)
  qed
  have h: "dir = Some SHRINK \<longrightarrow>
      (\<forall>node\<in>set (polylines s). selected_spec L s node \<longrightarrow> brushed_class node)"
  proof (intro impI ballI)
    fix node
    assume d: "dir = Some SHRINK" and n: "node \<in> set (polylines s)" and b: "selected_spec L s node"
    let ?P = "\<lambda>a. isBrushed L a (get (datum node) (name (dimension a))) = Inr True"
    have ax: "axes s = AList.update k a' (axes s0)" and m: "map_of (axes s0) k = Some a"
      using change d by simp_all
    have all: "list_all ?P (map snd (AList.update k a' (axes s0)))"
      using b by (simp add: selected_spec_def ax)
    have "?P a' \<Longrightarrow> ?P a" using shrink d n p by auto
    with all m have "list_all ?P (map snd (axes s0))"
      by (rule list_all_update_D)
    then have "selected_spec L s0 node" using b by (simp add: selected_spec_def lb)
    then show "brushed_class node" using before d n p by auto
  qed
  show ?thesis
    by (simp add: brush_def brush_each_registered [OF registered e h])
qed

text \<open>
  The theorem on the example chart, after the brush of \<open>Speed\<close> was extended to the whole
  axis. The first item becomes selected. The second lies in the extended brush too, but
  the brush of \<open>Cost\<close> still excludes it, and it stays unselected.
\<close>

theorem brush_pass_restores_conjunction_witness:
  "brush example_Lib (Some EXTEND)
     (example_chart\<lparr>axes := AList.update ''Speed'' (speed_axis (Some (0, 300))) (axes example_chart)\<rparr>)
   = Inr (example_chart
       \<lparr>axes := AList.update ''Speed'' (speed_axis (Some (0, 300))) (axes example_chart),
        polylines := map2 (\<lambda>row b. \<lparr>datum = row, brushed_class = b, d_attr = Some ''disjoint''\<rparr>)
                       example_rows [True, False, True]\<rparr>)"
proof -
  let ?s = "example_chart\<lparr>axes := AList.update ''Speed'' (speed_axis (Some (0, 300))) (axes example_chart)\<rparr>"
  have t: "toFixed6 0 = 0" "toFixed6 30 = 30" "toFixed6 150 = 150" "toFixed6 240 = 240"
    "toFixed6 270 = 270" "toFixed6 300 = 300"
    by (simp_all add: toFixed6_def)
  note defs = example_chart_def example_rows_def speed_axis_def labelled_axis_def cost_axis_def
    weight_axis_def speed_def cost_def weight_def example_Lib_def example_domainToRange_def
    new_lineBrush_def selected_spec_def isBrushed_def brushed_def getPath_def get_def
  have registered: "\<forall>a\<in>set (map snd (axes ?s)). brushGroup a \<noteq> None"
    by (simp add: defs)
  have same: "polylines ?s = polylines example_chart" "lineBrush ?s = lineBrush example_chart"
    by simp_all
  have change: "Some EXTEND \<noteq> None \<longrightarrow>
      axes ?s = AList.update ''Speed'' (speed_axis (Some (0, 300))) (axes example_chart) \<and>
      map_of (axes example_chart) ''Speed'' = Some (speed_axis (Some (150, 300)))"
    by (simp add: example_chart_def)
  have before: "Some EXTEND \<noteq> None \<longrightarrow>
      (\<forall>node\<in>set (polylines example_chart). brushed_class node = selected_spec example_Lib example_chart node)"
    by (simp add: defs t)
  have extend: "Some EXTEND = Some EXTEND \<longrightarrow>
      (\<forall>node\<in>set (polylines example_chart).
          isBrushed example_Lib (speed_axis (Some (150, 300)))
             (get (datum node) (name (dimension (speed_axis (Some (150, 300)))))) = Inr True \<longrightarrow>
          isBrushed example_Lib (speed_axis (Some (0, 300)))
             (get (datum node) (name (dimension (speed_axis (Some (0, 300)))))) = Inr True)"
    by (simp add: defs t)
  have shrink: "Some EXTEND = Some SHRINK \<longrightarrow>
      (\<forall>node\<in>set (polylines example_chart).
          isBrushed example_Lib (speed_axis (Some (0, 300)))
             (get (datum node) (name (dimension (speed_axis (Some (0, 300)))))) = Inr True \<longrightarrow>
          isBrushed example_Lib (speed_axis (Some (150, 300)))
             (get (datum node) (name (dimension (speed_axis (Some (150, 300)))))) = Inr True)"
    by simp
  have after: "map (\<lambda>node. node\<lparr>brushed_class := selected_spec example_Lib ?s node\<rparr>) (polylines ?s)
      = map2 (\<lambda>row b. \<lparr>datum = row, brushed_class = b, d_attr = Some ''disjoint''\<rparr>)
                       example_rows [True, False, True]"
    by (simp add: defs t)
  show ?thesis
    using brush_pass_restores_conjunction [OF registered same change before extend shrink] after
    by simp
qed

subsection \<open>Dragging an axis\<close>

text \<open>
  Claim C7, as the code has it. \<open>position\<close> is the drag position of an axis that is being
  dragged and the position the point scale gives otherwise. A drag event stores the
  pointer's x clamped to \<open>[0, options.width]\<close>, the full width of the chart; it sorts the
  dimensions by their positions (a stable sort of all of them), and the domain of the
  point scale becomes the names in the new order.
\<close>

theorem drag_reorders_axes:
  "(map_of (dragging s) e = Some y \<longrightarrow> position L s e = y) \<and>
   (map_of (dragging s) e = None \<longrightarrow> position L s e = xScale L (xScale_domain s) e) \<and>
   (let s1 = s\<lparr>dragging := AList.update d (min (options_width s) (max 0 x)) (dragging s)\<rparr>;
        s' = drag L d x s
    in map_of (dragging s') d = Some (min (options_width s) (max 0 x)) \<and>
       position L s' d = min (options_width s) (max 0 x) \<and>
       (0 \<le> options_width s \<longrightarrow> 0 \<le> position L s' d \<and> position L s' d \<le> options_width s) \<and>
       mset (dimensions s') = mset (dimensions s) \<and>
       sorted (map (\<lambda>dm. position L s1 (name dm)) (dimensions s')) \<and>
       (\<forall>p. filter (\<lambda>dm. position L s1 (name dm) = p) (dimensions s') =
            filter (\<lambda>dm. position L s1 (name dm) = p) (dimensions s)) \<and>
       xScale_domain s' = map name (dimensions s'))"
  by (auto simp: position_def drag_def Let_def update_conv' sort_key_stable)

text \<open>
  The theorem on the example chart: dragging \<open>Weight\<close> to 50 puts it between \<open>Speed\<close> (at
  0) and \<open>Cost\<close> (at 100, and at 200 once the scale has the new order).
\<close>

theorem drag_reorders_axes_witness:
  "dimensions (drag example_Lib ''Weight'' 50 example_chart) = [speed, weight, cost] \<and>
   xScale_domain (drag example_Lib ''Weight'' 50 example_chart) = [''Speed'', ''Weight'', ''Cost''] \<and>
   position example_Lib (drag example_Lib ''Weight'' 50 example_chart) ''Weight'' = 50 \<and>
   position example_Lib (drag example_Lib ''Weight'' 50 example_chart) ''Cost'' = 200"
proof -
  have w: "0 \<le> options_width example_chart" by (simp add: example_chart_def)
  have d: "dimensions (drag example_Lib ''Weight'' 50 example_chart) = [speed, weight, cost]"
    by (simp add: drag_def example_chart_def position_def example_Lib_def speed_def cost_def
        weight_def Let_def)
  have n: "map_of (dragging (drag example_Lib ''Weight'' 50 example_chart)) ''Cost'' = None"
    by (simp add: drag_def example_chart_def Let_def)
  show ?thesis
    using drag_reorders_axes [of "drag example_Lib ''Weight'' 50 example_chart" "''Cost''" _ example_Lib
        "''Weight''" 50]
      drag_reorders_axes [of example_chart "''Cost''" _ example_Lib "''Weight''" 50] d n w
    by (simp add: Let_def example_Lib_def speed_def cost_def weight_def example_chart_def)
qed

text \<open>
  The claim as stated fails in the bound: the canvas of the example chart is 990 wide, and
  the axis is dragged to 1050.
\<close>

theorem drag_clamp_counterexample:
  "map_of (dragging (drag example_Lib ''Weight'' 1050 example_chart)) ''Weight'' = Some 1050 \<and>
   position example_Lib (drag example_Lib ''Weight'' 1050 example_chart) ''Weight'' = 1050 \<and>
   canvasWidth example_chart = 990"
  by (simp add: drag_def example_chart_def position_def Let_def)

subsection \<open>A data update that changes a type\<close>

lemma reconcile_type_change:
  assumes "col \<in> set columns"
      and "find (\<lambda>oldDim. name oldDim = name col) old = Some existingDim"
      and "attr_type col \<noteq> attr_type existingDim"
  shows "\<exists>c\<in>set columns. reconcile old columns = Inl (TypeChanged (name c))"
  using assms
proof (induction columns)
  case Nil
  then show ?case by simp
next
  case (Cons c columns)
  show ?case
  proof (cases "find (\<lambda>oldDim. name oldDim = name c) old")
    case None
    then have "col \<noteq> c" using Cons.prems by auto
    then have "\<exists>c\<in>set columns. reconcile old columns = Inl (TypeChanged (name c))"
      using Cons by auto
    then show ?thesis using None by auto
  next
    case (Some e)
    show ?thesis
    proof (cases "attr_type c \<noteq> attr_type e")
      case True
      then show ?thesis using Some by auto
    next
      case False
      then have "col \<noteq> c" using Cons.prems Some by auto
      then have "\<exists>c\<in>set columns. reconcile old columns = Inl (TypeChanged (name c))"
        using Cons by auto
      then show ?thesis using Some False by auto
    qed
  qed
qed

text \<open>
  Claim C5, as the code has it. When the prepared columns of the new rows hold a column
  whose type differs from the dimension of the same name, \<open>setRows\<close> throws the error of a
  changed type (for the first such column), and the dimensions, the domain of the point
  scale, the axes, the drag positions, the polylines and the line brush are as before.
\<close>

theorem setRows_rejects_type_change:
  assumes "prepareData rows = Inr (columns, modifiedRows)"
      and "col \<in> set columns"
      and "find (\<lambda>oldDim. name oldDim = name col) (dimensions s) = Some existingDim"
      and "attr_type col \<noteq> attr_type existingDim"
  shows "\<exists>c\<in>set columns. \<exists>s'. setRows rows s = Inl (TypeChanged (name c), s') \<and>
           dimensions s' = dimensions s \<and> xScale_domain s' = xScale_domain s \<and>
           axes s' = axes s \<and> dragging s' = dragging s \<and> polylines s' = polylines s \<and>
           lineBrush s' = lineBrush s"
proof -
  obtain c where "c \<in> set columns" "reconcile (dimensions s) columns = Inl (TypeChanged (name c))"
    using reconcile_type_change [OF assms(2,3,4)] by blast
  then show ?thesis
    using assms(1) by (auto simp: setRows_def)
qed


text \<open>The theorem on the example chart, when \<open>Speed\<close> arrives as a string.\<close>

theorem setRows_rejects_type_change_witness:
  "setRows [[(''Speed'', Str ''fast'')]] example_chart =
     Inl (TypeChanged ''Speed'',
          example_chart\<lparr>data := [[(''Speed'', Str ''fast''), (''ID'', Num (Fin 0))]]\<rparr>)"
proof -
  let ?id = "\<lparr>name = ''ID'', unit = None, attr_type = NUMERICAL, color = None,
              statistics = MinMax (Fin 0) (Fin 0), obj = None\<rparr>"
  let ?sp = "\<lparr>name = ''Speed'', unit = None, attr_type = NOMINAL, color = None,
              statistics = Categories [''fast''], obj = None\<rparr>"
  have p: "prepareData [[(''Speed'', Str ''fast'')]] =
      Inr ([?id, ?sp], [[(''Speed'', Str ''fast''), (''ID'', Num (Fin 0))]])"
    by code_simp
  have c: "?sp \<in> set [?id, ?sp]" by simp
  have f: "find (\<lambda>oldDim. name oldDim = name ?sp) (dimensions example_chart) = Some speed"
    by (simp add: example_chart_def speed_def)
  have t: "attr_type ?sp \<noteq> attr_type speed" by (simp add: speed_def)
  have e: "setRows [[(''Speed'', Str ''fast'')]] example_chart =
     Inl (TypeChanged ''Speed'',
          example_chart\<lparr>data := [[(''Speed'', Str ''fast''), (''ID'', Num (Fin 0))]]\<rparr>)"
    by (simp add: setRows_def p example_chart_def speed_def cost_def weight_def)
  show ?thesis
    using setRows_rejects_type_change [OF p c f t] e by simp
qed

text \<open>
  The claim as stated fails in that the chart is not left as it was: the rows of the
  failed update have replaced the stored rows.
\<close>

theorem setRows_replaces_data_counterexample:
  "setRows [[(''Speed'', Str ''fast'')]] example_chart =
     Inl (TypeChanged ''Speed'',
          example_chart\<lparr>data := [[(''Speed'', Str ''fast''), (''ID'', Num (Fin 0))]]\<rparr>) \<and>
   data example_chart \<noteq> [[(''Speed'', Str ''fast''), (''ID'', Num (Fin 0))]]"
proof -
  have p: "prepareData [[(''Speed'', Str ''fast'')]] =
      Inr ([\<lparr>name = ''ID'', unit = None, attr_type = NUMERICAL, color = None,
              statistics = MinMax (Fin 0) (Fin 0), obj = None\<rparr>,
            \<lparr>name = ''Speed'', unit = None, attr_type = NOMINAL, color = None,
              statistics = Categories [''fast''], obj = None\<rparr>],
           [[(''Speed'', Str ''fast''), (''ID'', Num (Fin 0))]])"
    by code_simp
  show ?thesis
    by (simp add: setRows_def p example_chart_def example_rows_def speed_def cost_def weight_def)
qed


end
